theory Spec2Isabelle
  imports Main "HOL-Library.Word"
begin

unbundle bit_operations_syntax

section \<open>Bytes, byte arrays and protocol constants\<close>

text \<open>
  A \<open>char\<close> of the C++ source is an 8-bit word: addition wraps, \<open>sint\<close> reads it as
  the signed value the source promotes to \<open>int\<close>. A \<open>QByteArray\<close> is a list of bytes;
  \<open>int\<close> variables of the source (\<open>offset\<close>, \<open>length\<close>, loop counters) are \<open>int\<close>.
\<close>

type_synonym byte = "8 word"
type_synonym QByteArray = "byte list"

text \<open>magicstomp.h: \<open>PatchNameLength\<close> and the enum \<open>MagistompPatchDesc\<close>.\<close>

definition PatchNameLength :: int where
  "PatchNameLength = 12"

definition PatchName :: int where
  "PatchName = 16"

definition PatchNameLast :: int where
  "PatchNameLast = PatchName + PatchNameLength"

definition PatchCommonLength :: int where
  "PatchCommonLength = 0x20"

definition PatchEffectLength :: int where
  "PatchEffectLength = 0x7F"

definition PatchTotalLength :: int where
  "PatchTotalLength = PatchCommonLength + PatchEffectLength"

text \<open>mainwindow.cpp, lines 13 to 19: the SysEx headers.\<close>

definition sysExBulkHeaderLength :: int where
  "sysExBulkHeaderLength = 8"

definition sysExBulkHeader :: QByteArray where
  "sysExBulkHeader = [0xF0, 0x43, 0x7D, 0x30, 0x55, 0x42, 0x39, 0x39]"

definition parameterSendHeaderLength :: int where
  "parameterSendHeaderLength = 6"

definition sysExParameterSendHeader :: QByteArray where
  "sysExParameterSendHeader = [0xF0, 0x43, 0x7D, 0x40, 0x55, 0x42]"

text \<open>
  The \<open>QByteArray\<close> operations the source calls. \<open>left n\<close> returns the whole array
  when \<open>n\<close> is not smaller than its size and nothing when \<open>n\<close> is negative;
  \<open>startsWith\<close> compares the leading bytes.
\<close>

definition left :: "int \<Rightarrow> QByteArray \<Rightarrow> QByteArray" where
  "left n ba = take (nat n) ba"

definition startsWith :: "QByteArray \<Rightarrow> QByteArray \<Rightarrow> bool" where
  "startsWith ba pre = (take (length pre) ba = pre)"

section \<open>The checksum\<close>

text \<open>
  \<open>MainWindow::calcChecksum(data, dataLength)\<close>: the pair of a pointer and a length is
  the list of the \<open>dataLength\<close> bytes it denotes. The loop adds each byte to the
  \<open>char\<close> accumulator (the sum is truncated to 8 bits at every step); the result is
  \<open>(-checkSum) & 0x7f\<close>, computed on the promoted \<open>int\<close> and returned as a \<open>char\<close>.
\<close>

fun checksumLoop :: "byte \<Rightarrow> QByteArray \<Rightarrow> byte" where
  "checksumLoop checkSum [] = checkSum"
| "checksumLoop checkSum (b # data) = checksumLoop (checkSum + b) data"

definition calcChecksum :: "QByteArray \<Rightarrow> byte" where
  "calcChecksum data = word_of_int ((- sint (checksumLoop 0 data)) AND 0x7f)"

section \<open>The main window's protocol state\<close>

text \<open>
  The fields of \<open>MainWindow\<close> that the two functions read or write. \<open>editWidget\<close> is
  the data array of the \<open>ArrayDataEditWidget\<close> found in the central splitter,
  \<open>None\<close> when the cast yields \<open>nullptr\<close>. The declaration of \<open>newPatchDataList\<close> is
  not among the sources; it is indexed by the two components of
  \<open>currentPatchEdited\<close>.
\<close>

record mainwindow =
  editWidget :: "QByteArray option"
  midiOutQueue :: "QByteArray list"
  midiOutTimerActive :: bool
  midiOutTimerInterval :: int
  newPatchDataList :: "nat \<Rightarrow> nat \<Rightarrow> QByteArray"
  currentPatchEdited :: "nat \<times> nat"
  tmpArray :: QByteArray
  isInTransmissionState :: bool
  isInImportState :: bool

section \<open>Inbound frames: \<open>MainWindow::midiEvent\<close>\<close>

datatype event_type = MidiSysEx | OtherEvent

record midi_event =
  evType :: event_type
  sysExData :: QByteArray
  accepted :: bool

text \<open>
  Every \<open>return\<close> of \<open>midiEvent\<close> is a constructor: the event is of another type,
  the frame is shorter than 13 bytes, the header differs, the last byte is not
  \<open>0xF7\<close>, the checksum differs (logged as "Checksum Error!"), the frame is valid but
  no transfer is awaited (logged as "Incoming unexpected data!"), or the frame reaches
  the processing code.
\<close>

datatype midi_result =
  NotSysEx | TooShort | HeaderMismatch | MissingTerminator | ChecksumError
  | UnexpectedData | Processed

text \<open>
  The source ends at the comment "Process incoming SysEx data...": what follows is the
  parameter \<open>process\<close>, applied to the frame and the state. The result is the return
  point, the event (whose \<open>accepted\<close> flag \<open>ev->accept()\<close> sets) and the state.
  The indices \<open>length - 1\<close> and \<open>length - 2\<close> are read after the length check, so
  they are in range.
\<close>

definition midiEvent ::
  "(QByteArray \<Rightarrow> mainwindow \<Rightarrow> mainwindow) \<Rightarrow> midi_event \<Rightarrow> mainwindow
    \<Rightarrow> midi_result \<times> midi_event \<times> mainwindow" where
  "midiEvent process ev st =
     (if evType ev \<noteq> MidiSysEx then (NotSysEx, ev, st)
      else
        let inData = sysExData ev in
        if int (length inData) < 13 then (TooShort, ev, st)
        else if left sysExBulkHeaderLength inData \<noteq> sysExBulkHeader
          then (HeaderMismatch, ev, st)
        else
          let ev' = ev\<lparr>accepted := True\<rparr> in
          if inData ! nat (int (length inData) - 1) \<noteq> 0xF7
            then (MissingTerminator, ev', st)
          else
            let checkSum =
                  calcChecksum
                    (take (nat (int (length inData) - sysExBulkHeaderLength - 2))
                       (drop (nat sysExBulkHeaderLength) inData)) in
            if checkSum \<noteq> inData ! nat (int (length inData) - 1 - 1)
              then (ChecksumError, ev', st)
            else if \<not> isInTransmissionState st \<and> \<not> isInImportState st
              then (UnexpectedData, ev', st)
            else (Processed, ev', process inData st))"

text \<open>
  A bulk frame as the protocol lays it out: the header, the payload, the checksum of
  the payload and the terminator.
\<close>

definition bulkFrame :: "QByteArray \<Rightarrow> QByteArray" where
  "bulkFrame payload = sysExBulkHeader @ payload @ [calcChecksum payload] @ [0xF7]"

text \<open>
  The specification's words for a valid frame: at least 13 bytes, the bulk header in front,
  \<open>0xF7\<close> last, and before it the checksum of the bytes strictly between the header
  and that checksum byte. \<open>passedChecks\<close> holds of the two return points that lie
  behind the four validation checks of \<open>midiEvent\<close>.
\<close>

definition payloadOf :: "QByteArray \<Rightarrow> QByteArray" where
  "payloadOf f = take (length f - 10) (drop 8 f)"

definition frameChecks :: "QByteArray \<Rightarrow> bool" where
  "frameChecks f =
     (13 \<le> length f \<and> take 8 f = sysExBulkHeader \<and> last f = 0xF7
      \<and> f ! (length f - 2) = calcChecksum (payloadOf f))"

definition passedChecks :: "midi_result \<Rightarrow> bool" where
  "passedChecks r = (r = UnexpectedData \<or> r = Processed)"

section \<open>Outbound parameter frames: \<open>MainWindow::parameterChanged\<close>\<close>

text \<open>
  The value bytes are read through a raw pointer,
  \<open>*(editWidget->DataArray()->constData()+offset+i)\<close>. Inside the array the read
  yields the byte; outside it the C++ behaviour is undefined, and the model stops with
  \<open>OutOfRange\<close>.
\<close>

datatype error = OutOfRange

definition dataAt :: "QByteArray \<Rightarrow> int \<Rightarrow> error + byte" where
  "dataAt dataArray k =
     (if 0 \<le> k \<and> k < int (length dataArray) then Inr (dataArray ! nat k)
      else Inl OutOfRange)"

text \<open>Lines 58 to 61: \<open>for(int i= 0; i< length; i++) reqArr->append(...)\<close>.\<close>

function appendParameterData ::
  "QByteArray \<Rightarrow> int \<Rightarrow> int \<Rightarrow> int \<Rightarrow> QByteArray \<Rightarrow> error + QByteArray" where
  "appendParameterData dataArray offset len i reqArr =
     (if i < len then
        (case dataAt dataArray (offset + i) of
           Inl e \<Rightarrow> Inl e
         | Inr b \<Rightarrow> appendParameterData dataArray offset len (i + 1) (reqArr @ [b]))
      else Inr reqArr)"
  by pat_completeness auto
termination
  by (relation "measure (\<lambda>(dataArray, offset, len, i, reqArr). nat (len - i))") auto

text \<open>
  Lines 38 to 64: the frame is the parameter-send header, \<open>0x20\<close>, the section and
  address bytes (\<open>static_cast<char>\<close> keeps the low 8 bits), the value bytes and
  \<open>0xF7\<close>.
\<close>

definition buildParameterSend :: "QByteArray \<Rightarrow> int \<Rightarrow> int \<Rightarrow> error + QByteArray" where
  "buildParameterSend dataArray offset len =
     (let reqArr = left parameterSendHeaderLength sysExParameterSendHeader @ [0x20];
          reqArr = (if offset < PatchCommonLength
                    then reqArr @ [0x00] @ [word_of_int offset]
                    else reqArr @ [0x01] @ [word_of_int (offset - PatchCommonLength)])
      in case appendParameterData dataArray offset len 0 reqArr of
           Inl e \<Rightarrow> Inl e
         | Inr reqArr \<Rightarrow> Inr (reqArr @ [0xF7]))"

text \<open>
  Lines 68 to 83: the scan of \<open>midiOutQueue\<close> erases every entry that starts with
  the given bytes and steps over the others.
\<close>

fun eraseMatching :: "QByteArray \<Rightarrow> QByteArray list \<Rightarrow> QByteArray list" where
  "eraseMatching pre [] = []"
| "eraseMatching pre (sysexData # rest) =
     (if startsWith sysexData pre then eraseMatching pre rest
      else sysexData # eraseMatching pre rest)"

text \<open>
  Lines 66 to 93: erase the superseded entries, enqueue the new frame, and start the
  10 ms timer when it is not running.
\<close>

definition enqueueParameterSend :: "QByteArray \<Rightarrow> mainwindow \<Rightarrow> mainwindow" where
  "enqueueParameterSend reqArr st =
     (let st1 = st\<lparr>midiOutQueue :=
                   eraseMatching (left (parameterSendHeaderLength + 3) reqArr)
                     (midiOutQueue st)\<rparr>;
          st2 = st1\<lparr>midiOutQueue := midiOutQueue st1 @ [reqArr]\<rparr>
      in if \<not> midiOutTimerActive st2
         then st2\<lparr>midiOutTimerInterval := 10, midiOutTimerActive := True\<rparr>
         else st2)"

text \<open>
  Qt's \<open>QByteArray::replace(pos, len, after)\<close> removes \<open>len\<close> bytes at \<open>pos\<close> and
  inserts \<open>after\<close> there; an insertion behind the end pads with spaces.
\<close>

definition remove_ba :: "int \<Rightarrow> int \<Rightarrow> QByteArray \<Rightarrow> QByteArray" where
  "remove_ba pos len ba =
     (if len \<le> 0 \<or> pos < 0 \<or> int (length ba) \<le> pos then ba
      else take (nat pos) ba @ drop (nat (pos + len)) ba)"

definition insert_ba :: "int \<Rightarrow> QByteArray \<Rightarrow> QByteArray \<Rightarrow> QByteArray" where
  "insert_ba pos arr ba =
     (if pos < 0 \<or> arr = [] then ba
      else if int (length ba) < pos
        then ba @ replicate (nat pos - length ba) 0x20 @ arr
      else take (nat pos) ba @ arr @ drop (nat pos) ba)"

definition replace :: "int \<Rightarrow> int \<Rightarrow> QByteArray \<Rightarrow> QByteArray \<Rightarrow> QByteArray" where
  "replace pos len after ba = insert_ba pos after (remove_ba pos len ba)"

text \<open>
  Lines 103 to 107: the pending \<open>tmpArray\<close> is written into the patch being edited
  and cleared, when the editing widget has no focus and \<open>tmpArray\<close> is not empty.
\<close>

definition applyTmpArray :: "int \<Rightarrow> int \<Rightarrow> bool \<Rightarrow> mainwindow \<Rightarrow> mainwindow" where
  "applyTmpArray offset len hasFocus st =
     (if \<not> hasFocus \<and> tmpArray st \<noteq> [] then
        (let first = fst (currentPatchEdited st); second = snd (currentPatchEdited st);
             patch = replace offset len (tmpArray st) (newPatchDataList st first second)
         in st\<lparr>newPatchDataList :=
                  (newPatchDataList st)(first := (newPatchDataList st first)(second := patch)),
                tmpArray := []\<rparr>)
      else st)"

text \<open>
  \<open>parameterChanged(offset, length, paramEditWidget)\<close>. Of the widget only
  \<open>hasFocus()\<close> is read, so it is the parameter \<open>hasFocus\<close>. The function returns at
  once when there is no edit widget; for \<open>offset = PatchName\<close> it sets \<open>length\<close>
  to 1 and, after its own frame is enqueued, calls itself for every \<open>i\<close> from
  \<open>PatchName + 1\<close> below \<open>PatchNameLast\<close> (the loop \<open>sendNameChars\<close>). The
  writes to the name label, the patch list model and the controller map (lines 33 to
  35 and 109 to 118) go to widgets only and are left out, as is the \<open>qDebug\<close> output.
\<close>

function parameterChanged :: "int \<Rightarrow> int \<Rightarrow> bool \<Rightarrow> mainwindow \<Rightarrow> error + mainwindow"
  and sendNameChars :: "int \<Rightarrow> bool \<Rightarrow> mainwindow \<Rightarrow> error + mainwindow" where
  "parameterChanged offset len hasFocus st =
     (case editWidget st of
        None \<Rightarrow> Inr st
      | Some dataArray \<Rightarrow>
          (let len = (if offset = PatchName then 1 else len) in
           case buildParameterSend dataArray offset len of
             Inl e \<Rightarrow> Inl e
           | Inr reqArr \<Rightarrow>
               (case (if offset = PatchName
                      then sendNameChars (PatchName + 1) hasFocus
                             (enqueueParameterSend reqArr st)
                      else Inr (enqueueParameterSend reqArr st)) of
                  Inl e \<Rightarrow> Inl e
                | Inr st' \<Rightarrow> Inr (applyTmpArray offset len hasFocus st'))))"
| "sendNameChars i hasFocus st =
     (if i < PatchNameLast then
        (case parameterChanged i 1 hasFocus st of
           Inl e \<Rightarrow> Inl e
         | Inr st' \<Rightarrow> sendNameChars (i + 1) hasFocus st')
      else Inr st)"
  by pat_completeness auto
termination
  apply (relation "measure (\<lambda>x. case x of
            Inl (offset, len, hasFocus, st) \<Rightarrow>
              (if offset = PatchName then 2 * nat PatchNameLength else 0)
          | Inr (i, hasFocus, st) \<Rightarrow> 2 * nat (PatchNameLast - i) + 1)")
  apply (auto simp add: PatchName_def PatchNameLast_def PatchNameLength_def)
  done

declare parameterChanged.simps [simp del] sendNameChars.simps [simp del]
  appendParameterData.simps [simp del]

text \<open>A sequence of calls, each given as offset and length, made one after the other.\<close>

fun parameterChanges :: "(int \<times> int) list \<Rightarrow> bool \<Rightarrow> mainwindow \<Rightarrow> error + mainwindow" where
  "parameterChanges [] hasFocus st = Inr st"
| "parameterChanges ((offset, len) # calls) hasFocus st =
     (case parameterChanged offset len hasFocus st of
        Inl e \<Rightarrow> Inl e
      | Inr st' \<Rightarrow> parameterChanges calls hasFocus st')"

text \<open>
  The same function with a budget for the activations of \<open>parameterChanged\<close> that
  may be nested in one another: an activation needs a budget of at least 1 and leaves
  one less to the calls it makes, and \<open>None\<close> says that the budget did not suffice.
  The loop passes its budget on unchanged.
\<close>

function parameterChangedDepth ::
    "nat \<Rightarrow> int \<Rightarrow> int \<Rightarrow> bool \<Rightarrow> mainwindow \<Rightarrow> (error + mainwindow) option"
  and sendNameCharsDepth ::
    "nat \<Rightarrow> int \<Rightarrow> bool \<Rightarrow> mainwindow \<Rightarrow> (error + mainwindow) option" where
  "parameterChangedDepth 0 offset len hasFocus st = None"
| "parameterChangedDepth (Suc n) offset len hasFocus st =
     (case editWidget st of
        None \<Rightarrow> Some (Inr st)
      | Some dataArray \<Rightarrow>
          (let len = (if offset = PatchName then 1 else len) in
           case buildParameterSend dataArray offset len of
             Inl e \<Rightarrow> Some (Inl e)
           | Inr reqArr \<Rightarrow>
               (case (if offset = PatchName
                      then sendNameCharsDepth n (PatchName + 1) hasFocus
                             (enqueueParameterSend reqArr st)
                      else Some (Inr (enqueueParameterSend reqArr st))) of
                  None \<Rightarrow> None
                | Some (Inl e) \<Rightarrow> Some (Inl e)
                | Some (Inr st') \<Rightarrow> Some (Inr (applyTmpArray offset len hasFocus st')))))"
| "sendNameCharsDepth n i hasFocus st =
     (if i < PatchNameLast then
        (case parameterChangedDepth n i 1 hasFocus st of
           None \<Rightarrow> None
         | Some (Inl e) \<Rightarrow> Some (Inl e)
         | Some (Inr st') \<Rightarrow> sendNameCharsDepth n (i + 1) hasFocus st')
      else Some (Inr st))"
  by pat_completeness auto
termination
  apply (relation "measure (\<lambda>x. case x of
            Inl (n, offset, len, hasFocus, st) \<Rightarrow> 13 * n
          | Inr (n, i, hasFocus, st) \<Rightarrow> 13 * n + 1 + nat (PatchNameLast - i))")
  apply (auto simp add: PatchName_def PatchNameLast_def PatchNameLength_def)
  done

declare parameterChangedDepth.simps [simp del] sendNameCharsDepth.simps [simp del]

section \<open>Notions used in the statements about the queue\<close>

text \<open>
  The first \<open>parameterSendHeaderLength + 3\<close> bytes of the frame built for an offset
  (lines 42 to 55), the same nine bytes given by section and address, and the property
  that a queue holds at most one frame for any section and address.
\<close>

definition parameterSendPrefix :: "int \<Rightarrow> QByteArray" where
  "parameterSendPrefix offset =
     sysExParameterSendHeader @ [0x20]
       @ (if offset < PatchCommonLength then [0x00, word_of_int offset]
          else [0x01, word_of_int (offset - PatchCommonLength)])"

definition addressPrefix :: "byte \<Rightarrow> byte \<Rightarrow> QByteArray" where
  "addressPrefix section address = sysExParameterSendHeader @ [0x20, section, address]"

definition atMostOnePerAddress :: "QByteArray list \<Rightarrow> bool" where
  "atMostOnePerAddress q =
     (\<forall>section address.
        length (filter (\<lambda>e. startsWith e (addressPrefix section address)) q) \<le> 1)"

text \<open>
  The frame with one value byte for offset \<open>k\<close>, and the effect of the call
  \<open>parameterChanged(k, 1, paramEditWidget)\<close> for an offset other than \<open>PatchName\<close>
  that lies inside the data array \<open>d\<close>.
\<close>

definition singleByteFrame :: "QByteArray \<Rightarrow> int \<Rightarrow> QByteArray" where
  "singleByteFrame d k = parameterSendPrefix k @ [d ! nat k, 0xF7]"

definition sendOne :: "QByteArray \<Rightarrow> bool \<Rightarrow> int \<Rightarrow> mainwindow \<Rightarrow> mainwindow" where
  "sendOne d hasFocus k st =
     applyTmpArray k 1 hasFocus (enqueueParameterSend (singleByteFrame d k) st)"

section \<open>Example states and events\<close>

definition idleWindow :: mainwindow where
  "idleWindow =
     \<lparr>editWidget = None, midiOutQueue = [], midiOutTimerActive = False,
      midiOutTimerInterval = 0, newPatchDataList = (\<lambda>_ _. []),
      currentPatchEdited = (0, 0), tmpArray = [],
      isInTransmissionState = False, isInImportState = False\<rparr>"

definition awaitingWindow :: mainwindow where
  "awaitingWindow = idleWindow\<lparr>isInTransmissionState := True\<rparr>"

text \<open>An edit widget whose data array holds the bytes 0 to 158.\<close>

definition editWindow :: mainwindow where
  "editWindow = idleWindow\<lparr>editWidget := Some (map word_of_nat [0 ..< 159])\<rparr>"

text \<open>The same window with two frames queued, for the offsets 5 and 6.\<close>

definition queuedWindow :: mainwindow where
  "queuedWindow =
     editWindow\<lparr>midiOutQueue :=
       [[0xF0, 0x43, 0x7D, 0x40, 0x55, 0x42, 0x20, 0x00, 5, 5, 0xF7],
        [0xF0, 0x43, 0x7D, 0x40, 0x55, 0x42, 0x20, 0x00, 6, 6, 0xF7]]\<rparr>"

text \<open>
  The window with a patch of 159 zero bytes being edited and one byte pending in
  \<open>tmpArray\<close>.
\<close>

definition pendingWindow :: mainwindow where
  "pendingWindow =
     editWindow\<lparr>newPatchDataList := (\<lambda>_ _. replicate 159 0x00), tmpArray := [0x41]\<rparr>"

definition sysExEvent :: "QByteArray \<Rightarrow> midi_event" where
  "sysExEvent f = \<lparr>evType = MidiSysEx, sysExData = f, accepted = False\<rparr>"

text \<open>A processing step to run the examples with: it ends the awaited transfer.\<close>

definition endTransfer :: "QByteArray \<Rightarrow> mainwindow \<Rightarrow> mainwindow" where
  "endTransfer f st = st\<lparr>isInTransmissionState := False\<rparr>"

section \<open>Properties of the checksum\<close>

lemma checksumLoop_sum: "checksumLoop acc data = acc + sum_list data"
  by (induction data arbitrary: acc) (simp_all add: add.assoc)

lemma and127_mod: "(x::int) AND 0x7f = x mod 128"
proof -
  have "take_bit 7 x = x mod 2 ^ 7" by (rule take_bit_eq_mod)
  then show ?thesis by (simp add: take_bit_eq_mask mask_eq_exp_minus_1)
qed

lemma calcChecksum_uint: "uint (calcChecksum data) = (- sint (sum_list data)) mod 128"
  apply (simp add: calcChecksum_def checksumLoop_sum and127_mod)
  apply (simp add: uint_word_of_int)
  done

lemma word_of_sint_sum: "(word_of_int (\<Sum>b\<leftarrow>data. sint b) :: byte) = sum_list data"
  by (induction data) simp_all

lemma sint_sum_list_mod:
  "sint (sum_list (data::byte list)) mod 256 = (\<Sum>b\<leftarrow>data. sint b) mod 256"
proof -
  have "(word_of_int (sint (sum_list data)) :: byte) = word_of_int (\<Sum>b\<leftarrow>data. sint b)"
    by (simp add: word_of_sint_sum)
  then have "take_bit 8 (sint (sum_list data)) = take_bit 8 (\<Sum>b\<leftarrow>data. sint b)"
    unfolding word_of_int_eq_iff by simp
  then show ?thesis
    unfolding take_bit_eq_mod by simp
qed

lemma neg_mod128:
  assumes "(a::int) mod 256 = b mod 256"
  shows "(- a) mod 128 = (- b) mod 128"
proof -
  have "(- a) mod 256 = (- b) mod 256" using assms by (metis mod_minus_eq)
  then have "((- a) mod 256) mod 128 = ((- b) mod 256) mod 128" by simp
  then show ?thesis by (simp add: mod_mod_cancel)
qed

lemma calcChecksum_signed_sum:
  "uint (calcChecksum data) = (- (\<Sum>b\<leftarrow>data. sint b)) mod 128"
  using neg_mod128 [OF sint_sum_list_mod [of data]] by (simp add: calcChecksum_uint)

lemma calcChecksum_range: "0 \<le> uint (calcChecksum data) \<and> uint (calcChecksum data) \<le> 127"
  by (simp add: calcChecksum_uint)

section \<open>Properties of inbound validation\<close>

lemma midiEvent_checked:
  assumes "evType ev = MidiSysEx" and "frameChecks (sysExData ev)"
  shows "midiEvent process ev st =
           (if \<not> isInTransmissionState st \<and> \<not> isInImportState st
            then (UnexpectedData, ev\<lparr>accepted := True\<rparr>, st)
            else (Processed, ev\<lparr>accepted := True\<rparr>, process (sysExData ev) st))"
proof -
  let ?f = "sysExData ev"
  from assms(2) have len: "13 \<le> length ?f" and hd: "take 8 ?f = sysExBulkHeader"
    and tl: "last ?f = 0xF7" and ck: "?f ! (length ?f - 2) = calcChecksum (payloadOf ?f)"
    by (simp_all add: frameChecks_def)
  from len have ne: "?f \<noteq> []" by auto
  have i1: "nat (int (length ?f) - 1) = length ?f - 1" by simp
  have i2: "nat (int (length ?f) - 2) = length ?f - 2" by simp
  have i3: "nat (int (length ?f) - 10) = length ?f - 10" by simp
  have t: "?f ! (length ?f - 1) = 0xF7" using tl ne by (simp add: last_conv_nth)
  show ?thesis
    using assms(1) len hd t ck
    by (simp add: midiEvent_def Let_def left_def sysExBulkHeaderLength_def i1 i2 i3 payloadOf_def)
qed

lemma midiEvent_unchecked:
  assumes "evType ev = MidiSysEx" and "\<not> frameChecks (sysExData ev)"
  shows "fst (midiEvent process ev st)
           \<in> {TooShort, HeaderMismatch, MissingTerminator, ChecksumError}
         \<and> snd (snd (midiEvent process ev st)) = st"
proof -
  let ?f = "sysExData ev"
  have i1: "nat (int (length ?f) - 1) = length ?f - 1" by simp
  have i2: "nat (int (length ?f) - 2) = length ?f - 2" by simp
  have i3: "nat (int (length ?f) - 10) = length ?f - 10" by simp
  show ?thesis
  proof (cases "13 \<le> length ?f")
    case False
    then show ?thesis using assms(1) by (simp add: midiEvent_def Let_def)
  next
    case True
    then have ne: "?f \<noteq> []" by auto
    then have l: "last ?f = ?f ! (length ?f - 1)" by (simp add: last_conv_nth)
    show ?thesis
      using assms True l
      by (auto simp add: midiEvent_def Let_def left_def sysExBulkHeaderLength_def i1 i2 i3
            payloadOf_def frameChecks_def)
  qed
qed

lemma midiEvent_other_type:
  "evType ev \<noteq> MidiSysEx \<Longrightarrow> midiEvent process ev st = (NotSysEx, ev, st)"
  by (simp add: midiEvent_def)

lemma frameChecks_bulkFrame: "3 \<le> length P \<Longrightarrow> frameChecks (bulkFrame P)"
  by (simp add: frameChecks_def bulkFrame_def payloadOf_def sysExBulkHeader_def nth_append)

lemma frameChecks_decompose:
  assumes "frameChecks f"
  shows "f = bulkFrame (payloadOf f)"
proof -
  from assms have len: "13 \<le> length f" and hd: "take 8 f = sysExBulkHeader"
    and tl: "last f = 0xF7" and ck: "f ! (length f - 2) = calcChecksum (payloadOf f)"
    by (simp_all add: frameChecks_def)
  have a: "f = take 8 f @ drop 8 f" by simp
  have b: "drop 8 f = take (length f - 10) (drop 8 f) @ drop (length f - 10) (drop 8 f)"
    by (rule append_take_drop_id [symmetric])
  have c: "drop (length f - 10) (drop 8 f) = drop (length f - 2) f" using len by simp
  have d1: "drop (length f - 2) f = f ! (length f - 2) # drop (Suc (length f - 2)) f"
    using len by (intro Cons_nth_drop_Suc [symmetric]) simp
  have d2: "drop (length f - 1) f = f ! (length f - 1) # drop (Suc (length f - 1)) f"
    using len by (intro Cons_nth_drop_Suc [symmetric]) simp
  have d3: "Suc (length f - 2) = length f - 1" "Suc (length f - 1) = length f"
    using len by simp_all
  have d: "drop (length f - 2) f = [f ! (length f - 2), f ! (length f - 1)]"
    using d1 d2 by (simp add: d3)
  from len have "f \<noteq> []" by auto
  then have e: "f ! (length f - 1) = 0xF7" using tl by (simp add: last_conv_nth)
  have "f = take 8 f @ take (length f - 10) (drop 8 f) @ [f ! (length f - 2), f ! (length f - 1)]"
    using a b c d by metis
  then show ?thesis using hd ck e
    by (simp add: bulkFrame_def payloadOf_def)
qed

lemma passedChecks_iff:
  assumes "evType ev = MidiSysEx"
  shows "passedChecks (fst (midiEvent process ev st)) = frameChecks (sysExData ev)"
proof (cases "frameChecks (sysExData ev)")
  case True
  then show ?thesis
    using midiEvent_checked [OF assms True, of process st] by (simp add: passedChecks_def)
next
  case False
  then show ?thesis
    using midiEvent_unchecked [OF assms False, of process st] by (auto simp add: passedChecks_def)
qed

section \<open>Properties of the frame builder and of the calls\<close>

lemma appendParameterData_Inr:
  "appendParameterData d offset len i r = Inr r' \<Longrightarrow>
     r' = r @ map (\<lambda>k. d ! nat (offset + k)) [i..len - 1]
     \<and> (\<forall>k\<in>set [i..len - 1]. 0 \<le> offset + k \<and> offset + k < int (length d))"
proof (induction d offset len i r rule: appendParameterData.induct)
  case (1 d offset len i r)
  show ?case
  proof (cases "i < len")
    case False
    with "1.prems" show ?thesis by (simp add: appendParameterData.simps)
  next
    case True
    from "1.prems" True obtain b where b: "dataAt d (offset + i) = Inr b"
      and rec: "appendParameterData d offset len (i + 1) (r @ [b]) = Inr r'"
      by (auto simp add: appendParameterData.simps [of d offset len i r] split: sum.splits)
    from b have rng: "0 \<le> offset + i \<and> offset + i < int (length d)" and bv: "b = d ! nat (offset + i)"
      by (auto simp add: dataAt_def split: if_splits)
    have up: "[i..len - 1] = i # [i + 1..len - 1]" using True by (simp add: upto_rec1)
    from "1.IH" [OF True b rec] show ?thesis using rng bv up by simp
  qed
qed

lemma appendParameterData_in_range:
  "0 \<le> offset + i \<Longrightarrow> offset + len \<le> int (length d) \<Longrightarrow>
   appendParameterData d offset len i r = Inr (r @ map (\<lambda>k. d ! nat (offset + k)) [i..len - 1])"
proof (induction d offset len i r rule: appendParameterData.induct)
  case (1 d offset len i r)
  show ?case
  proof (cases "i < len")
    case False
    then show ?thesis by (simp add: appendParameterData.simps)
  next
    case True
    have b: "dataAt d (offset + i) = Inr (d ! nat (offset + i))"
      using True "1.prems" by (simp add: dataAt_def)
    have up: "[i..len - 1] = i # [i + 1..len - 1]" using True by (simp add: upto_rec1)
    have "appendParameterData d offset len (i + 1) (r @ [d ! nat (offset + i)])
            = Inr ((r @ [d ! nat (offset + i)]) @ map (\<lambda>k. d ! nat (offset + k)) [i + 1..len - 1])"
      using "1.IH" [OF True b] "1.prems" by simp
    then show ?thesis using True b up by (simp add: appendParameterData.simps [of d offset len i r])
  qed
qed

lemma length_parameterSendPrefix [simp]: "length (parameterSendPrefix offset) = 9"
  by (simp add: parameterSendPrefix_def sysExParameterSendHeader_def)

lemma buildParameterSend_Inr:
  assumes "buildParameterSend d offset len = Inr f"
  shows "f = parameterSendPrefix offset @ map (\<lambda>k. d ! nat (offset + k)) [0..len - 1] @ [0xF7]"
    and "\<forall>k\<in>set [0..len - 1]. 0 \<le> offset + k \<and> offset + k < int (length d)"
proof -
  let ?r = "parameterSendPrefix offset"
  have pre: "(if offset < PatchCommonLength
        then (left parameterSendHeaderLength sysExParameterSendHeader @ [0x20]) @ [0x00] @ [word_of_int offset]
        else (left parameterSendHeaderLength sysExParameterSendHeader @ [0x20]) @ [0x01] @ [word_of_int (offset - PatchCommonLength)]) = ?r"
    by (simp add: parameterSendPrefix_def left_def parameterSendHeaderLength_def sysExParameterSendHeader_def)
  from assms obtain r' where a: "appendParameterData d offset len 0 ?r = Inr r'" and f: "f = r' @ [0xF7]"
    unfolding buildParameterSend_def Let_def pre by (auto split: sum.splits)
  from appendParameterData_Inr [OF a] f
  show "f = parameterSendPrefix offset @ map (\<lambda>k. d ! nat (offset + k)) [0..len - 1] @ [0xF7]"
    and "\<forall>k\<in>set [0..len - 1]. 0 \<le> offset + k \<and> offset + k < int (length d)"
    by simp_all
qed

lemma buildParameterSend_in_range:
  assumes "0 \<le> offset" and "offset + len \<le> int (length d)"
  shows "buildParameterSend d offset len
           = Inr (parameterSendPrefix offset @ map (\<lambda>k. d ! nat (offset + k)) [0..len - 1] @ [0xF7])"
proof -
  let ?r = "parameterSendPrefix offset"
  have pre: "(if offset < PatchCommonLength
        then (left parameterSendHeaderLength sysExParameterSendHeader @ [0x20]) @ [0x00] @ [word_of_int offset]
        else (left parameterSendHeaderLength sysExParameterSendHeader @ [0x20]) @ [0x01] @ [word_of_int (offset - PatchCommonLength)]) = ?r"
    by (simp add: parameterSendPrefix_def left_def parameterSendHeaderLength_def sysExParameterSendHeader_def)
  have "appendParameterData d offset len 0 ?r = Inr (?r @ map (\<lambda>k. d ! nat (offset + k)) [0..len - 1])"
    using assms by (intro appendParameterData_in_range) simp_all
  then show ?thesis unfolding buildParameterSend_def Let_def pre by simp
qed

lemma buildParameterSend_one:
  "buildParameterSend d k 1 =
     (if 0 \<le> k \<and> k < int (length d) then Inr (parameterSendPrefix k @ [d ! nat k, 0xF7])
      else Inl OutOfRange)"
proof (cases "0 \<le> k \<and> k < int (length d)")
  case True
  then show ?thesis using buildParameterSend_in_range [of k 1 d] by (simp add: upto_rec1)
next
  case False
  have "buildParameterSend d k 1 \<noteq> Inr f" for f
  proof
    assume "buildParameterSend d k 1 = Inr f"
    from buildParameterSend_Inr(2) [OF this] have "0 \<le> k \<and> k < int (length d)"
      by (simp add: upto_rec1)
    with False show False by simp
  qed
  then show ?thesis using False by (cases "buildParameterSend d k 1") (auto intro: error.exhaust)
qed

lemma eraseMatching_filter: "eraseMatching pre q = filter (\<lambda>e. \<not> startsWith e pre) q"
  by (induction q) simp_all

lemma midiOutQueue_enqueue:
  "midiOutQueue (enqueueParameterSend f st)
     = filter (\<lambda>e. \<not> startsWith e (take 9 f)) (midiOutQueue st) @ [f]"
  by (simp add: enqueueParameterSend_def Let_def eraseMatching_filter left_def
        parameterSendHeaderLength_def)

lemma enqueue_other_fields [simp]:
  "editWidget (enqueueParameterSend f st) = editWidget st"
  "newPatchDataList (enqueueParameterSend f st) = newPatchDataList st"
  "tmpArray (enqueueParameterSend f st) = tmpArray st"
  "currentPatchEdited (enqueueParameterSend f st) = currentPatchEdited st"
  "isInTransmissionState (enqueueParameterSend f st) = isInTransmissionState st"
  "isInImportState (enqueueParameterSend f st) = isInImportState st"
  by (simp_all add: enqueueParameterSend_def Let_def)

lemma applyTmpArray_fields [simp]:
  "editWidget (applyTmpArray offset len hf st) = editWidget st"
  "midiOutQueue (applyTmpArray offset len hf st) = midiOutQueue st"
  "midiOutTimerActive (applyTmpArray offset len hf st) = midiOutTimerActive st"
  "midiOutTimerInterval (applyTmpArray offset len hf st) = midiOutTimerInterval st"
  "currentPatchEdited (applyTmpArray offset len hf st) = currentPatchEdited st"
  "isInTransmissionState (applyTmpArray offset len hf st) = isInTransmissionState st"
  "isInImportState (applyTmpArray offset len hf st) = isInImportState st"
  by (simp_all add: applyTmpArray_def Let_def)

lemma parameterChanged_no_widget:
  "editWidget st = None \<Longrightarrow> parameterChanged offset len hf st = Inr st"
  by (simp add: parameterChanged.simps)

lemma parameterChanged_other:
  assumes "editWidget st = Some d" and "offset \<noteq> PatchName"
  shows "parameterChanged offset len hf st =
           (case buildParameterSend d offset len of
              Inl e \<Rightarrow> Inl e
            | Inr f \<Rightarrow> Inr (applyTmpArray offset len hf (enqueueParameterSend f st)))"
  using assms by (simp add: parameterChanged.simps [of offset len hf st] split: sum.splits)

lemma parameterChanged_name:
  assumes "editWidget st = Some d"
  shows "parameterChanged PatchName len hf st =
           (case buildParameterSend d PatchName 1 of
              Inl e \<Rightarrow> Inl e
            | Inr f \<Rightarrow>
               (case sendNameChars (PatchName + 1) hf (enqueueParameterSend f st) of
                  Inl e \<Rightarrow> Inl e
                | Inr st' \<Rightarrow> Inr (applyTmpArray PatchName 1 hf st')))"
  using assms by (simp add: parameterChanged.simps [of PatchName len hf st] split: sum.splits)

lemma sendOne_editWidget [simp]: "editWidget (sendOne d hf k st) = editWidget st"
  by (simp add: sendOne_def)

lemma sendNameChars_fold:
  assumes "editWidget st = Some d" and "PatchName < i" and "PatchNameLast \<le> int (length d)"
  shows "sendNameChars i hf st = Inr (fold (sendOne d hf) [i..PatchNameLast - 1] st)"
  using assms
proof (induction "nat (PatchNameLast - i)" arbitrary: i st)
  case 0
  then have "\<not> i < PatchNameLast" by simp
  then show ?case by (simp add: sendNameChars.simps [of i hf st])
next
  case (Suc n)
  then have lt: "i < PatchNameLast" by linarith
  have ne: "i \<noteq> PatchName" using Suc.prems by simp
  have rng: "0 \<le> i \<and> i < int (length d)" using Suc.prems lt by (simp add: PatchName_def)
  have one: "parameterChanged i 1 hf st = Inr (sendOne d hf i st)"
    using rng by (simp add: parameterChanged_other [OF Suc.prems(1) ne] buildParameterSend_one sendOne_def singleByteFrame_def)
  have n: "n = nat (PatchNameLast - (i + 1))" using Suc.hyps(2) by linarith
  have rec: "sendNameChars (i + 1) hf (sendOne d hf i st)
               = Inr (fold (sendOne d hf) [i + 1..PatchNameLast - 1] (sendOne d hf i st))"
    using Suc.prems by (intro Suc.hyps(1) [OF n]) simp_all
  have up: "[i..PatchNameLast - 1] = i # [i + 1..PatchNameLast - 1]" using lt by (simp add: upto_rec1)
  show ?case using lt one rec up by (simp add: sendNameChars.simps [of i hf st])
qed

lemma startsWith_prefix_append:
  "length p = 9 \<Longrightarrow> length p' = 9 \<Longrightarrow> startsWith (p @ rest) p' = (p = p')"
  by (auto simp add: startsWith_def)

lemma take9_singleByteFrame [simp]: "take 9 (singleByteFrame d k) = parameterSendPrefix k"
  by (simp add: singleByteFrame_def)

lemma startsWith_singleByteFrame:
  "startsWith (singleByteFrame d k) (parameterSendPrefix k') = (parameterSendPrefix k = parameterSendPrefix k')"
  by (simp add: singleByteFrame_def startsWith_prefix_append)

lemma midiOutQueue_sendOne:
  "midiOutQueue (sendOne d hf k st)
     = filter (\<lambda>e. \<not> startsWith e (parameterSendPrefix k)) (midiOutQueue st) @ [singleByteFrame d k]"
  by (simp add: sendOne_def midiOutQueue_enqueue)

lemma midiOutQueue_fold_sendOne:
  assumes "distinct (map parameterSendPrefix ks)"
  shows "midiOutQueue (fold (sendOne d hf) ks st)
           = filter (\<lambda>e. \<forall>k\<in>set ks. \<not> startsWith e (parameterSendPrefix k)) (midiOutQueue st)
               @ map (singleByteFrame d) ks"
  using assms
proof (induction ks arbitrary: st)
  case Nil
  show ?case by simp
next
  case (Cons k ks)
  have keep: "\<forall>k'\<in>set ks. \<not> startsWith (singleByteFrame d k) (parameterSendPrefix k')"
    using Cons.prems by (auto simp add: startsWith_singleByteFrame)
  have "midiOutQueue (fold (sendOne d hf) (k # ks) st)
          = midiOutQueue (fold (sendOne d hf) ks (sendOne d hf k st))" by simp
  also have "\<dots> = filter (\<lambda>e. \<forall>k'\<in>set ks. \<not> startsWith e (parameterSendPrefix k'))
                      (midiOutQueue (sendOne d hf k st)) @ map (singleByteFrame d) ks"
    using Cons.prems by (intro Cons.IH) simp
  also have "\<dots> = filter (\<lambda>e. \<forall>k'\<in>set (k # ks). \<not> startsWith e (parameterSendPrefix k'))
                      (midiOutQueue st) @ map (singleByteFrame d) (k # ks)"
    using keep by (simp add: midiOutQueue_sendOne conj_commute)
  finally show ?case .
qed

lemma sendNameChars_short:
  assumes "editWidget st = Some d" and "PatchName < i" and "i \<le> int (length d)"
    and "int (length d) < PatchNameLast"
  shows "sendNameChars i hf st = Inl OutOfRange"
  using assms
proof (induction "nat (int (length d) - i)" arbitrary: i st)
  case 0
  then have i: "i = int (length d)" by simp
  have ne: "i \<noteq> PatchName" using "0.prems" by simp
  have "buildParameterSend d i 1 = Inl OutOfRange"
    using i by (simp add: buildParameterSend_one)
  then have pc: "parameterChanged i 1 hf st = Inl OutOfRange"
    by (simp add: parameterChanged_other [OF "0.prems"(1) ne])
  have lt: "i < PatchNameLast" using "0.prems"(4) i by simp
  show ?case by (simp add: sendNameChars.simps [of i hf st] pc lt)
next
  case (Suc n)
  then have lt: "i < int (length d)" by linarith
  have ne: "i \<noteq> PatchName" using Suc.prems by simp
  have rng: "0 \<le> i" using Suc.prems by (simp add: PatchName_def)
  have one: "parameterChanged i 1 hf st = Inr (sendOne d hf i st)"
    using rng lt by (simp add: parameterChanged_other [OF Suc.prems(1) ne] buildParameterSend_one sendOne_def singleByteFrame_def)
  have n: "n = nat (int (length d) - (i + 1))" using Suc.hyps(2) by linarith
  have rec: "sendNameChars (i + 1) hf (sendOne d hf i st) = Inl OutOfRange"
    using Suc.prems lt by (intro Suc.hyps(1) [OF n]) simp_all
  show ?case using one rec Suc.prems lt by (simp add: sendNameChars.simps [of i hf st])
qed

lemma parameterChanged_name_result:
  assumes "editWidget st = Some d"
  shows "parameterChanged PatchName len hf st =
           (if PatchNameLast \<le> int (length d)
            then Inr (applyTmpArray PatchName 1 hf
                   (fold (sendOne d hf) [PatchName + 1..PatchNameLast - 1]
                      (enqueueParameterSend (singleByteFrame d PatchName) st)))
            else Inl OutOfRange)"
proof (cases "PatchNameLast \<le> int (length d)")
  case True
  then have b: "buildParameterSend d PatchName 1 = Inr (singleByteFrame d PatchName)"
    by (simp add: buildParameterSend_one singleByteFrame_def PatchName_def PatchNameLast_def PatchNameLength_def)
  have e: "editWidget (enqueueParameterSend (singleByteFrame d PatchName) st) = Some d"
    using assms by simp
  show ?thesis
    using True by (simp add: parameterChanged_name [OF assms] b sendNameChars_fold [OF e _ True])
next
  case False
  show ?thesis
  proof (cases "PatchName < int (length d)")
    case False
    then have "buildParameterSend d PatchName 1 = Inl OutOfRange"
      by (simp add: buildParameterSend_one)
    then show ?thesis using \<open>\<not> PatchNameLast \<le> int (length d)\<close>
      by (simp add: parameterChanged_name [OF assms])
  next
    case True
    then have b: "buildParameterSend d PatchName 1 = Inr (singleByteFrame d PatchName)"
      by (simp add: buildParameterSend_one singleByteFrame_def PatchName_def)
    have e: "editWidget (enqueueParameterSend (singleByteFrame d PatchName) st) = Some d"
      using assms by simp
    have "sendNameChars (PatchName + 1) hf (enqueueParameterSend (singleByteFrame d PatchName) st)
            = Inl OutOfRange"
      using True \<open>\<not> PatchNameLast \<le> int (length d)\<close>
      by (intro sendNameChars_short [OF e]) simp_all
    then show ?thesis using \<open>\<not> PatchNameLast \<le> int (length d)\<close>
      by (simp add: parameterChanged_name [OF assms] b)
  qed
qed

lemma name_offsets: "[PatchName..PatchNameLast - 1] = [16, 17, 18, 19, 20, 21, 22, 23, 24, 25, 26, 27]"
  by code_simp

lemma name_offsets_tail: "[PatchName + 1..PatchNameLast - 1] = [17, 18, 19, 20, 21, 22, 23, 24, 25, 26, 27]"
  by code_simp

lemma name_prefixes_distinct: "distinct (map parameterSendPrefix [PatchName..PatchNameLast - 1])"
  unfolding name_offsets by code_simp

lemma midiOutQueue_name:
  assumes "editWidget st = Some d" and "parameterChanged PatchName len hf st = Inr st'"
  shows "PatchNameLast \<le> int (length d)"
    and "midiOutQueue st'
           = filter (\<lambda>e. \<forall>k\<in>set [PatchName..PatchNameLast - 1]. \<not> startsWith e (parameterSendPrefix k))
               (midiOutQueue st)
             @ map (singleByteFrame d) [PatchName..PatchNameLast - 1]"
proof -
  show len: "PatchNameLast \<le> int (length d)"
    using assms(2) by (simp add: parameterChanged_name_result [OF assms(1)] split: if_splits)
  let ?s1 = "enqueueParameterSend (singleByteFrame d PatchName) st"
  have st': "st' = applyTmpArray PatchName 1 hf (fold (sendOne d hf) [PatchName + 1..PatchNameLast - 1] ?s1)"
    using assms(2) len by (simp add: parameterChanged_name_result [OF assms(1)])
  have up: "[PatchName..PatchNameLast - 1] = PatchName # [PatchName + 1..PatchNameLast - 1]"
    by (simp add: upto_rec1 PatchName_def PatchNameLast_def PatchNameLength_def)
  have d1: "distinct (map parameterSendPrefix [PatchName + 1..PatchNameLast - 1])"
    using name_prefixes_distinct unfolding up by simp
  have q1: "midiOutQueue ?s1 = midiOutQueue (sendOne d hf PatchName st)"
    by (simp add: sendOne_def)
  have "midiOutQueue st' = midiOutQueue (fold (sendOne d hf) [PatchName + 1..PatchNameLast - 1] ?s1)"
    by (simp add: st')
  also have "\<dots> = midiOutQueue (fold (sendOne d hf) [PatchName + 1..PatchNameLast - 1] (sendOne d hf PatchName st))"
    by (simp add: midiOutQueue_fold_sendOne [OF d1] q1)
  also have "\<dots> = midiOutQueue (fold (sendOne d hf) [PatchName..PatchNameLast - 1] st)"
    unfolding up by simp
  finally show "midiOutQueue st'
           = filter (\<lambda>e. \<forall>k\<in>set [PatchName..PatchNameLast - 1]. \<not> startsWith e (parameterSendPrefix k))
               (midiOutQueue st)
             @ map (singleByteFrame d) [PatchName..PatchNameLast - 1]"
    by (simp only: midiOutQueue_fold_sendOne [OF name_prefixes_distinct])
qed

lemma midiOutQueue_other:
  assumes "editWidget st = Some d" and "offset \<noteq> PatchName"
    and "parameterChanged offset len hf st = Inr st'"
  shows "\<exists>f. buildParameterSend d offset len = Inr f
           \<and> midiOutQueue st'
               = filter (\<lambda>e. \<not> startsWith e (parameterSendPrefix offset)) (midiOutQueue st) @ [f]"
proof -
  from assms(3) obtain f where b: "buildParameterSend d offset len = Inr f"
    and st': "st' = applyTmpArray offset len hf (enqueueParameterSend f st)"
    by (auto simp add: parameterChanged_other [OF assms(1,2)] split: sum.splits)
  have "take 9 f = parameterSendPrefix offset"
    using buildParameterSend_Inr(1) [OF b] by simp
  then show ?thesis using b st' by (simp add: midiOutQueue_enqueue)
qed

lemma uint_byte_of_int: "0 \<le> k \<Longrightarrow> k < 256 \<Longrightarrow> uint (word_of_int k :: byte) = k"
  by (simp add: uint_word_of_int)

lemma prefix_bytes:
  "take 7 (parameterSendPrefix offset @ rest) = sysExParameterSendHeader @ [0x20]"
  "(parameterSendPrefix offset @ rest) ! 7 = (if offset < PatchCommonLength then 0x00 else 0x01)"
  "(parameterSendPrefix offset @ rest) ! 8
     = (if offset < PatchCommonLength then word_of_int offset else word_of_int (offset - PatchCommonLength))"
  by (simp_all add: parameterSendPrefix_def sysExParameterSendHeader_def)

lemma editWindow_widget: "editWidget editWindow = Some (map word_of_nat [0 ..< 159])"
  by (simp add: editWindow_def idleWindow_def)

lemma length_addressPrefix [simp]: "length (addressPrefix section address) = 9"
  by (simp add: addressPrefix_def sysExParameterSendHeader_def)

lemma length_filter_filter_le: "length (filter P (filter Q q)) \<le> length (filter P q)"
  by (induction q) auto

lemma atMostOne_enqueue:
  assumes "atMostOnePerAddress q" and "take 9 f = parameterSendPrefix offset"
  shows "atMostOnePerAddress (filter (\<lambda>e. \<not> startsWith e (parameterSendPrefix offset)) q @ [f])"
  unfolding atMostOnePerAddress_def
proof (intro allI)
  fix sec addr
  let ?p = "addressPrefix sec addr"
  let ?q = "filter (\<lambda>e. \<not> startsWith e (parameterSendPrefix offset)) q"
  have sw: "startsWith f ?p = (parameterSendPrefix offset = ?p)"
    using assms(2) by (auto simp add: startsWith_def)
  show "length (filter (\<lambda>e. startsWith e ?p) (?q @ [f])) \<le> 1"
  proof (cases "parameterSendPrefix offset = ?p")
    case True
    then have "filter (\<lambda>e. startsWith e ?p) ?q = []"
      by (simp add: filter_empty_conv)
    then show ?thesis by simp
  next
    case False
    have "length (filter (\<lambda>e. startsWith e ?p) ?q) \<le> length (filter (\<lambda>e. startsWith e ?p) q)"
      by (rule length_filter_filter_le)
    also have "\<dots> \<le> 1" using assms(1) by (simp add: atMostOnePerAddress_def)
    finally show ?thesis using False sw by simp
  qed
qed

lemma atMostOne_sendOne:
  "atMostOnePerAddress (midiOutQueue st) \<Longrightarrow> atMostOnePerAddress (midiOutQueue (sendOne d hf k st))"
  by (simp add: midiOutQueue_sendOne atMostOne_enqueue)

lemma atMostOne_fold_sendOne:
  "atMostOnePerAddress (midiOutQueue st) \<Longrightarrow>
   atMostOnePerAddress (midiOutQueue (fold (sendOne d hf) ks st))"
  by (induction ks arbitrary: st) (simp_all add: atMostOne_sendOne)

lemma atMostOne_parameterChanged:
  assumes "parameterChanged offset len hf st = Inr st'" and "atMostOnePerAddress (midiOutQueue st)"
  shows "atMostOnePerAddress (midiOutQueue st')"
proof (cases "editWidget st")
  case None
  then show ?thesis using assms by (simp add: parameterChanged_no_widget)
next
  case (Some d)
  show ?thesis
  proof (cases "offset = PatchName")
    case False
    from midiOutQueue_other [OF Some False assms(1)] obtain f
      where b: "buildParameterSend d offset len = Inr f"
        and q: "midiOutQueue st' = filter (\<lambda>e. \<not> startsWith e (parameterSendPrefix offset)) (midiOutQueue st) @ [f]"
      by blast
    have "take 9 f = parameterSendPrefix offset" using buildParameterSend_Inr(1) [OF b] by simp
    then show ?thesis unfolding q by (rule atMostOne_enqueue [OF assms(2)])
  next
    case True
    with assms(1) have pc: "parameterChanged PatchName len hf st = Inr st'" by simp
    have "midiOutQueue st' = midiOutQueue (fold (sendOne d hf) [PatchName..PatchNameLast - 1] st)"
      by (simp only: midiOutQueue_name(2) [OF Some pc] midiOutQueue_fold_sendOne [OF name_prefixes_distinct])
    then show ?thesis using atMostOne_fold_sendOne [OF assms(2)] by simp
  qed
qed

lemma atMostOne_parameterChanges:
  "parameterChanges calls hf st = Inr st' \<Longrightarrow> atMostOnePerAddress (midiOutQueue st) \<Longrightarrow>
   atMostOnePerAddress (midiOutQueue st')"
proof (induction calls arbitrary: st)
  case Nil
  then show ?case by simp
next
  case (Cons c calls)
  obtain offset len where c: "c = (offset, len)" by (cases c)
  from Cons.prems(1) obtain s1 where s1: "parameterChanged offset len hf st = Inr s1"
    and rest: "parameterChanges calls hf s1 = Inr st'"
    by (auto simp add: c split: sum.splits)
  from atMostOne_parameterChanged [OF s1 Cons.prems(2)] Cons.IH [OF rest] show ?case by blast
qed

lemma queuedWindow_widget: "editWidget queuedWindow = Some (map word_of_nat [0 ..< 159])"
  by (simp add: queuedWindow_def editWindow_def idleWindow_def)

lemma queuedWindow_atMostOne: "atMostOnePerAddress (midiOutQueue queuedWindow)"
  by (simp add: queuedWindow_def atMostOnePerAddress_def startsWith_def addressPrefix_def
        sysExParameterSendHeader_def)

lemma parameterChangedDepth_other:
  assumes "offset \<noteq> PatchName"
  shows "parameterChangedDepth (Suc n) offset len hf st = Some (parameterChanged offset len hf st)"
  using assms
  by (simp add: parameterChangedDepth.simps parameterChanged.simps [of offset len hf st]
        split: option.splits sum.splits)

lemma sendNameCharsDepth_eq:
  assumes "PatchName < i"
  shows "sendNameCharsDepth (Suc n) i hf st = Some (sendNameChars i hf st)"
  using assms
proof (induction "nat (PatchNameLast - i)" arbitrary: i st)
  case 0
  then have "\<not> i < PatchNameLast" by simp
  then show ?case
    by (simp add: sendNameCharsDepth.simps [of "Suc n" i hf st] sendNameChars.simps [of i hf st])
next
  case (Suc m)
  then have lt: "i < PatchNameLast" by linarith
  have ne: "i \<noteq> PatchName" using Suc.prems by simp
  have m: "m = nat (PatchNameLast - (i + 1))" using Suc.hyps(2) by linarith
  have rec: "sendNameCharsDepth (Suc n) (i + 1) hf s = Some (sendNameChars (i + 1) hf s)" for s
    using Suc.prems by (intro Suc.hyps(1) [OF m]) simp
  show ?case
    using lt
    by (simp add: sendNameCharsDepth.simps [of "Suc n" i hf st] sendNameChars.simps [of i hf st]
          parameterChangedDepth_other [OF ne] rec split: sum.splits)
qed

lemma parameterChangedDepth_two:
  "parameterChangedDepth (Suc (Suc n)) offset len hf st = Some (parameterChanged offset len hf st)"
proof (cases "offset = PatchName")
  case False
  then show ?thesis by (rule parameterChangedDepth_other)
next
  case True
  have "PatchName < PatchName + 1" by simp
  note s = sendNameCharsDepth_eq [OF this, of n hf]
  show ?thesis
    unfolding True
    by (simp add: parameterChangedDepth.simps(2) [of "Suc n" PatchName len hf st]
          parameterChanged.simps [of PatchName len hf st] s split: option.splits sum.splits)
qed

lemma queue_length_bound:
  assumes "parameterChanged offset len hf st = Inr st'"
  shows "length (midiOutQueue st') \<le> length (midiOutQueue st) + 12"
proof (cases "editWidget st")
  case None
  then show ?thesis using assms by (simp add: parameterChanged_no_widget)
next
  case (Some d)
  show ?thesis
  proof (cases "offset = PatchName")
    case False
    from midiOutQueue_other [OF Some False assms] obtain f
      where "midiOutQueue st' = filter (\<lambda>e. \<not> startsWith e (parameterSendPrefix offset)) (midiOutQueue st) @ [f]"
      by blast
    then have "length (midiOutQueue st') = length (filter (\<lambda>e. \<not> startsWith e (parameterSendPrefix offset)) (midiOutQueue st)) + 1"
      by simp
    also have "\<dots> \<le> length (midiOutQueue st) + 1" by simp
    finally show ?thesis by simp
  next
    case True
    with assms have pc: "parameterChanged PatchName len hf st = Inr st'" by simp
    have "length (midiOutQueue st')
            = length (filter (\<lambda>e. \<forall>k\<in>set [PatchName..PatchNameLast - 1]. \<not> startsWith e (parameterSendPrefix k)) (midiOutQueue st))
              + length [PatchName..PatchNameLast - 1]"
      by (simp add: midiOutQueue_name(2) [OF Some pc])
    also have "\<dots> \<le> length (midiOutQueue st) + length [PatchName..PatchNameLast - 1]"
      by simp
    also have "length [PatchName..PatchNameLast - 1] = 12"
      by (simp add: PatchNameLast_def PatchNameLength_def)
    finally show ?thesis by simp
  qed
qed

lemma built_frame_enqueued:
  assumes "editWidget st = Some d" and "parameterChanged offset len hf st = Inr st'"
  shows "\<exists>f\<in>set (midiOutQueue st').
           buildParameterSend d offset (if offset = PatchName then 1 else len) = Inr f"
proof (cases "offset = PatchName")
  case False
  from midiOutQueue_other [OF assms(1) False assms(2)] show ?thesis using False by auto
next
  case True
  from assms(2) True have pc: "parameterChanged PatchName len hf st = Inr st'" by simp
  from midiOutQueue_name [OF assms(1) pc]
  have len: "PatchNameLast \<le> int (length d)"
    and "singleByteFrame d PatchName \<in> set (midiOutQueue st')"
    by (simp_all add: upto_rec1 [of PatchName] PatchName_def PatchNameLast_def PatchNameLength_def)
  moreover have "buildParameterSend d PatchName 1 = Inr (singleByteFrame d PatchName)"
    using len
    by (simp add: buildParameterSend_one singleByteFrame_def PatchName_def PatchNameLast_def
          PatchNameLength_def)
  ultimately show ?thesis using True by auto
qed

lemma midiOutQueue_result:
  assumes "editWidget st = Some d"
  shows "map_sum id midiOutQueue (parameterChanged offset len hf st) =
           (if offset = PatchName then
              (if PatchNameLast \<le> int (length d)
               then Inr (filter (\<lambda>e. \<forall>k\<in>set [PatchName..PatchNameLast - 1].
                                        \<not> startsWith e (parameterSendPrefix k)) (midiOutQueue st)
                         @ map (singleByteFrame d) [PatchName..PatchNameLast - 1])
               else Inl OutOfRange)
            else map_sum id
                   (\<lambda>f. filter (\<lambda>e. \<not> startsWith e (take 9 f)) (midiOutQueue st) @ [f])
                   (buildParameterSend d offset len))"
proof (cases "offset = PatchName")
  case False
  then show ?thesis
    by (simp add: parameterChanged_other [OF assms False] midiOutQueue_enqueue split: sum.splits)
next
  case True
  show ?thesis
  proof (cases "PatchNameLast \<le> int (length d)")
    case False
    then show ?thesis using True by (simp add: parameterChanged_name_result [OF assms])
  next
    case len: True
    then obtain st' where r: "parameterChanged PatchName len hf st = Inr st'"
      by (simp add: parameterChanged_name_result [OF assms])
    show ?thesis
      using True len midiOutQueue_name(2) [OF assms r] by (simp add: r)
  qed
qed

lemma applyTmpArray_noop:
  "hf \<or> tmpArray st = [] \<Longrightarrow> applyTmpArray offset len hf st = st"
  by (auto simp add: applyTmpArray_def)

lemma sendOne_store:
  assumes "hf \<or> tmpArray st = []"
  shows "newPatchDataList (sendOne d hf k st) = newPatchDataList st
         \<and> tmpArray (sendOne d hf k st) = tmpArray st"
proof -
  have "hf \<or> tmpArray (enqueueParameterSend (singleByteFrame d k) st) = []"
    using assms by simp
  then show ?thesis by (simp add: sendOne_def applyTmpArray_noop)
qed

lemma fold_sendOne_store:
  "hf \<or> tmpArray st = [] \<Longrightarrow>
   newPatchDataList (fold (sendOne d hf) ks st) = newPatchDataList st
   \<and> tmpArray (fold (sendOne d hf) ks st) = tmpArray st"
proof (induction ks arbitrary: st)
  case Nil
  show ?case by simp
next
  case (Cons k ks)
  from sendOne_store [OF Cons.prems, of d k]
  have s: "newPatchDataList (sendOne d hf k st) = newPatchDataList st"
    "tmpArray (sendOne d hf k st) = tmpArray st" by simp_all
  have "hf \<or> tmpArray (sendOne d hf k st) = []" using Cons.prems s by simp
  from Cons.IH [OF this] s show ?case by simp
qed

lemma store_unchanged:
  assumes "parameterChanged offset len hf st = Inr st'" and "hf \<or> tmpArray st = []"
  shows "newPatchDataList st' = newPatchDataList st \<and> tmpArray st' = tmpArray st"
proof (cases "editWidget st")
  case None
  then show ?thesis using assms by (simp add: parameterChanged_no_widget)
next
  case (Some d)
  show ?thesis
  proof (cases "offset = PatchName")
    case False
    from assms(1) obtain f where st': "st' = applyTmpArray offset len hf (enqueueParameterSend f st)"
      by (auto simp add: parameterChanged_other [OF Some False] split: sum.splits)
    have "hf \<or> tmpArray (enqueueParameterSend f st) = []" using assms(2) by simp
    then show ?thesis unfolding st' by (simp add: applyTmpArray_noop)
  next
    case True
    let ?s1 = "enqueueParameterSend (singleByteFrame d PatchName) st"
    let ?s2 = "fold (sendOne d hf) [PatchName + 1..PatchNameLast - 1] ?s1"
    from assms(1) True have st': "st' = applyTmpArray PatchName 1 hf ?s2"
      by (simp add: parameterChanged_name_result [OF Some] split: if_splits)
    have h1: "hf \<or> tmpArray ?s1 = []" using assms(2) by simp
    from fold_sendOne_store [OF h1, of d "[PatchName + 1..PatchNameLast - 1]"]
    have s2: "newPatchDataList ?s2 = newPatchDataList st" "tmpArray ?s2 = tmpArray st" by simp_all
    then have "hf \<or> tmpArray ?s2 = []" using assms(2) by simp
    then show ?thesis unfolding st' using s2 by (simp add: applyTmpArray_noop)
  qed
qed

lemma store_written:
  assumes "editWidget st = Some d" and "offset \<noteq> PatchName"
    and "parameterChanged offset len hf st = Inr st'" and "\<not> hf" and "tmpArray st \<noteq> []"
  shows "newPatchDataList st'
           = (newPatchDataList st)
               (fst (currentPatchEdited st) :=
                  (newPatchDataList st (fst (currentPatchEdited st)))
                    (snd (currentPatchEdited st) :=
                       replace offset len (tmpArray st)
                         (newPatchDataList st (fst (currentPatchEdited st))
                            (snd (currentPatchEdited st)))))
         \<and> tmpArray st' = []"
proof -
  from assms(3) obtain f where st': "st' = applyTmpArray offset len hf (enqueueParameterSend f st)"
    by (auto simp add: parameterChanged_other [OF assms(1,2)] split: sum.splits)
  show ?thesis unfolding st' using assms(4,5) by (simp add: applyTmpArray_def Let_def)
qed

lemma pendingWindow_widget: "editWidget pendingWindow = Some (map word_of_nat [0 ..< 159])"
  by (simp add: pendingWindow_def editWindow_def idleWindow_def)

section \<open>Checksum and round trip\<close>

text \<open>
  C1. The checksum of every payload lies in \<open>[0,127]\<close> and is the low seven bits of
  the negated sum of the bytes read as signed 8-bit values. The round trip as stated
  for every payload fails: with a payload of fewer than three bytes the frame is shorter
  than 13 bytes and the length check drops it (here a two-byte payload, a frame of 12
  bytes).
\<close>

theorem short_payload_counterexample:
  "bulkFrame [0x01, 0x02]
     = [0xF0, 0x43, 0x7D, 0x30, 0x55, 0x42, 0x39, 0x39, 0x01, 0x02, 0x7D, 0xF7]
   \<and> fst (midiEvent endTransfer (sysExEvent (bulkFrame [0x01, 0x02])) awaitingWindow)
     = TooShort"
  by code_simp

text \<open>
  C1, amended. For every payload \<open>P\<close> of at least three bytes (in particular every
  \<open>P\<close> of length 151): \<open>calcChecksum P\<close> is in \<open>[0,127]\<close>, it equals
  \<open>(-sum) & 0x7F\<close> for the sum of the bytes as signed 8-bit values, and the frame
  built as header, \<open>P\<close>, \<open>calcChecksum P\<close>, \<open>0xF7\<close> passes the length, header,
  terminator and checksum checks of \<open>midiEvent\<close>, in every state and whatever the
  processing code does.
\<close>

theorem bulkFrame_roundtrip:
  assumes "3 \<le> length P"
  shows "uint (calcChecksum P) = (- (\<Sum>b\<leftarrow>P. sint b)) mod 128
         \<and> 0 \<le> uint (calcChecksum P) \<and> uint (calcChecksum P) \<le> 127
         \<and> frameChecks (bulkFrame P)
         \<and> passedChecks (fst (midiEvent process (sysExEvent (bulkFrame P)) st))"
proof -
  have fc: "frameChecks (sysExData (sysExEvent (bulkFrame P)))"
    using assms by (simp add: sysExEvent_def frameChecks_bulkFrame)
  have ty: "evType (sysExEvent (bulkFrame P)) = MidiSysEx" by (simp add: sysExEvent_def)
  have "passedChecks (fst (midiEvent process (sysExEvent (bulkFrame P)) st))"
    using passedChecks_iff [OF ty, of process st] fc by simp
  then show ?thesis
    using calcChecksum_signed_sum [of P] calcChecksum_range [of P]
      frameChecks_bulkFrame [OF assms]
    by simp
qed

theorem bulkFrame_roundtrip_witness:
  "3 \<le> length (replicate 151 (0x41 :: byte))
   \<and> uint (calcChecksum (replicate 151 0x41))
       = (- (\<Sum>b\<leftarrow>replicate 151 (0x41 :: byte). sint b)) mod 128
   \<and> 0 \<le> uint (calcChecksum (replicate 151 0x41))
   \<and> uint (calcChecksum (replicate 151 0x41)) \<le> 127
   \<and> frameChecks (bulkFrame (replicate 151 0x41))
   \<and> passedChecks
        (fst (midiEvent endTransfer (sysExEvent (bulkFrame (replicate 151 0x41)))
           awaitingWindow))"
proof -
  have h: "3 \<le> length (replicate 151 (0x41 :: byte))" by simp
  show ?thesis using h bulkFrame_roundtrip [OF h, of endTransfer awaitingWindow] by blast
qed

section \<open>Inbound validation\<close>

text \<open>
  C2. The equivalence fails in the direction from the four conditions to processing.
  The 13-byte frame with the payload 1, 2, 3 and the checksum \<open>0x7A\<close> has the bulk
  header, ends with \<open>0xF7\<close> and carries the right checksum, yet with neither
  \<open>isInTransmissionState\<close> nor \<open>isInImportState\<close> set \<open>midiEvent\<close> returns at
  the "Incoming unexpected data!" branch and the processing code is not reached.
\<close>

theorem valid_frame_not_processed_counterexample:
  "bulkFrame [0x01, 0x02, 0x03]
     = [0xF0, 0x43, 0x7D, 0x30, 0x55, 0x42, 0x39, 0x39, 0x01, 0x02, 0x03, 0x7A, 0xF7]
   \<and> frameChecks (bulkFrame [0x01, 0x02, 0x03])
   \<and> fst (midiEvent endTransfer (sysExEvent (bulkFrame [0x01, 0x02, 0x03])) idleWindow)
       = UnexpectedData
   \<and> fst (midiEvent endTransfer (sysExEvent (bulkFrame [0x01, 0x02, 0x03])) idleWindow)
       \<noteq> Processed"
  by code_simp

text \<open>
  C2, amended. A SysEx frame is accepted for processing by \<open>midiEvent\<close> (the
  processing code is reached) if and only if it has at least 13 bytes, starts with the
  bulk header, ends with \<open>0xF7\<close>, carries before it the checksum of the bytes strictly
  between the header and the checksum byte, and \<open>isInTransmissionState\<close> or
  \<open>isInImportState\<close> is set. The four conditions on the frame alone are exactly what
  takes it past the validation checks. Every frame that is not processed, so every
  frame that fails one of the four checks and in particular every frame shorter than 13
  bytes, is dropped with the whole state (transfer flags and patch store included)
  unchanged; a frame that fails a check returns at that check, a frame shorter than 13
  bytes at the length check.
\<close>

theorem midiEvent_validation:
  assumes "evType ev = MidiSysEx"
  shows "(fst (midiEvent process ev st) = Processed)
           = (frameChecks (sysExData ev)
              \<and> (isInTransmissionState st \<or> isInImportState st))
     \<and> passedChecks (fst (midiEvent process ev st)) = frameChecks (sysExData ev)
     \<and> (fst (midiEvent process ev st) \<noteq> Processed \<longrightarrow>
          snd (snd (midiEvent process ev st)) = st)
     \<and> (\<not> frameChecks (sysExData ev) \<longrightarrow>
          fst (midiEvent process ev st)
            \<in> {TooShort, HeaderMismatch, MissingTerminator, ChecksumError}
          \<and> snd (snd (midiEvent process ev st)) = st)
     \<and> (length (sysExData ev) < 13 \<longrightarrow> midiEvent process ev st = (TooShort, ev, st))"
proof -
  have a: "passedChecks (fst (midiEvent process ev st)) = frameChecks (sysExData ev)"
    by (rule passedChecks_iff [OF assms])
  have c: "fst (midiEvent process ev st)
            \<in> {TooShort, HeaderMismatch, MissingTerminator, ChecksumError}
          \<and> snd (snd (midiEvent process ev st)) = st"
    if "\<not> frameChecks (sysExData ev)"
    by (rule midiEvent_unchecked [OF assms that])
  have b: "(fst (midiEvent process ev st) = Processed)
             = (frameChecks (sysExData ev)
                \<and> (isInTransmissionState st \<or> isInImportState st))"
  proof (cases "frameChecks (sysExData ev)")
    case True
    then show ?thesis using midiEvent_checked [OF assms True, of process st] by auto
  next
    case False
    then show ?thesis using c [OF False] by auto
  qed
  have e: "snd (snd (midiEvent process ev st)) = st"
    if "fst (midiEvent process ev st) \<noteq> Processed"
  proof (cases "frameChecks (sysExData ev)")
    case True
    then show ?thesis
      using midiEvent_checked [OF assms True, of process st] that by (auto split: if_splits)
  next
    case False
    then show ?thesis using c [OF False] by simp
  qed
  have d: "midiEvent process ev st = (TooShort, ev, st)" if "length (sysExData ev) < 13"
    using assms that by (simp add: midiEvent_def Let_def)
  from a b c d e show ?thesis by blast
qed

theorem midiEvent_validation_witness:
  "evType (sysExEvent [0xF0, 0x43, 0x7D]) = MidiSysEx
   \<and> \<not> frameChecks (sysExData (sysExEvent [0xF0, 0x43, 0x7D]))
   \<and> length (sysExData (sysExEvent [0xF0, 0x43, 0x7D])) < 13
   \<and> midiEvent endTransfer (sysExEvent [0xF0, 0x43, 0x7D]) awaitingWindow
       = (TooShort, sysExEvent [0xF0, 0x43, 0x7D], awaitingWindow)
   \<and> evType (sysExEvent (bulkFrame [0x01, 0x02, 0x03])) = MidiSysEx
   \<and> frameChecks (sysExData (sysExEvent (bulkFrame [0x01, 0x02, 0x03])))
   \<and> isInTransmissionState awaitingWindow
   \<and> fst (midiEvent endTransfer (sysExEvent (bulkFrame [0x01, 0x02, 0x03])) awaitingWindow)
       = Processed
   \<and> \<not> isInTransmissionState idleWindow \<and> \<not> isInImportState idleWindow
   \<and> fst (midiEvent endTransfer (sysExEvent (bulkFrame [0x01, 0x02, 0x03])) idleWindow)
       \<noteq> Processed
   \<and> passedChecks
        (fst (midiEvent endTransfer (sysExEvent (bulkFrame [0x01, 0x02, 0x03])) idleWindow))
   \<and> snd (snd (midiEvent endTransfer (sysExEvent (bulkFrame [0x01, 0x02, 0x03])) idleWindow))
       = idleWindow"
proof -
  have t: "evType (sysExEvent [0xF0, 0x43, 0x7D]) = MidiSysEx" by (simp add: sysExEvent_def)
  have n: "\<not> frameChecks (sysExData (sysExEvent [0xF0, 0x43, 0x7D]))"
    by (simp add: sysExEvent_def frameChecks_def)
  have l: "length (sysExData (sysExEvent [0xF0, 0x43, 0x7D])) < 13"
    by (simp add: sysExEvent_def)
  have t': "evType (sysExEvent (bulkFrame [0x01, 0x02, 0x03])) = MidiSysEx"
    by (simp add: sysExEvent_def)
  have c: "frameChecks (sysExData (sysExEvent (bulkFrame [0x01, 0x02, 0x03])))"
    by code_simp
  have s: "isInTransmissionState awaitingWindow"
    by (simp add: awaitingWindow_def idleWindow_def)
  have i: "\<not> isInTransmissionState idleWindow" "\<not> isInImportState idleWindow"
    by (simp_all add: idleWindow_def)
  from midiEvent_validation [OF t, of endTransfer awaitingWindow] n l
  have w1: "midiEvent endTransfer (sysExEvent [0xF0, 0x43, 0x7D]) awaitingWindow
       = (TooShort, sysExEvent [0xF0, 0x43, 0x7D], awaitingWindow)" by blast
  from midiEvent_validation [OF t', of endTransfer awaitingWindow] c s
  have w2: "fst (midiEvent endTransfer (sysExEvent (bulkFrame [0x01, 0x02, 0x03]))
                   awaitingWindow) = Processed" by blast
  from midiEvent_validation [OF t', of endTransfer idleWindow] c i
  have w3: "fst (midiEvent endTransfer (sysExEvent (bulkFrame [0x01, 0x02, 0x03])) idleWindow)
       \<noteq> Processed"
    and w4: "passedChecks
        (fst (midiEvent endTransfer (sysExEvent (bulkFrame [0x01, 0x02, 0x03])) idleWindow))"
    and w5: "snd (snd (midiEvent endTransfer (sysExEvent (bulkFrame [0x01, 0x02, 0x03]))
                        idleWindow)) = idleWindow"
    by blast+
  from t n l w1 t' c s w2 i w3 w4 w5 show ?thesis by blast
qed

text \<open>
  C5. A bulk frame that passes the four checks while neither \<open>isInTransmissionState\<close>
  nor \<open>isInImportState\<close> is set returns at the "Incoming unexpected data!" branch:
  the processing code is not reached and the state, patch store and transfer flags
  included, is the one before the call.
\<close>

theorem unexpected_frame_dropped:
  assumes "evType ev = MidiSysEx" and "frameChecks (sysExData ev)"
    and "\<not> isInTransmissionState st" and "\<not> isInImportState st"
  shows "midiEvent process ev st = (UnexpectedData, ev\<lparr>accepted := True\<rparr>, st)"
  using midiEvent_checked [OF assms(1,2), of process st] assms(3,4) by simp

theorem unexpected_frame_dropped_witness:
  "evType (sysExEvent (bulkFrame [0x01, 0x02, 0x03])) = MidiSysEx
   \<and> frameChecks (sysExData (sysExEvent (bulkFrame [0x01, 0x02, 0x03])))
   \<and> \<not> isInTransmissionState idleWindow \<and> \<not> isInImportState idleWindow
   \<and> midiEvent endTransfer (sysExEvent (bulkFrame [0x01, 0x02, 0x03])) idleWindow
       = (UnexpectedData, (sysExEvent (bulkFrame [0x01, 0x02, 0x03]))\<lparr>accepted := True\<rparr>,
          idleWindow)"
proof -
  have t: "evType (sysExEvent (bulkFrame [0x01, 0x02, 0x03])) = MidiSysEx"
    by (simp add: sysExEvent_def)
  have c: "frameChecks (sysExData (sysExEvent (bulkFrame [0x01, 0x02, 0x03])))"
    by code_simp
  have i: "\<not> isInTransmissionState idleWindow" "\<not> isInImportState idleWindow"
    by (simp_all add: idleWindow_def)
  show ?thesis
    using t c i unexpected_frame_dropped [OF t c i, of endTransfer] by simp
qed

text \<open>
  C7. Validation does not require a total length of 169 bytes: a frame of 13 bytes
  (header, three zero payload bytes, checksum 0, terminator) passes all four checks and,
  with a transfer awaited, reaches the processing code.
\<close>

theorem thirteen_byte_frame_counterexample:
  "fst (midiEvent endTransfer
      (sysExEvent [0xF0, 0x43, 0x7D, 0x30, 0x55, 0x42, 0x39, 0x39, 0x00, 0x00, 0x00, 0x00, 0xF7])
      awaitingWindow) = Processed
   \<and> length [0xF0, 0x43, 0x7D, 0x30, 0x55, 0x42, 0x39, 0x39, 0x00, 0x00, 0x00, 0x00,
        0xF7 :: byte] = 13"
  by code_simp

text \<open>
  C7, amended. A frame is accepted by validation only if its total length is at least
  13 bytes; an accepted frame is the 8-byte header, a payload of the total length minus
  ten bytes (at least three), the checksum of that payload and \<open>0xF7\<close>. That the
  payload has 159 bytes (a total of 169) is not checked.
\<close>

theorem accepted_frame_length:
  assumes "passedChecks (fst (midiEvent process ev st))"
  shows "13 \<le> length (sysExData ev)
     \<and> sysExData ev = sysExBulkHeader @ payloadOf (sysExData ev)
          @ [calcChecksum (payloadOf (sysExData ev)), 0xF7]
     \<and> int (length (payloadOf (sysExData ev))) = int (length (sysExData ev)) - 10
     \<and> 3 \<le> length (payloadOf (sysExData ev))"
proof -
  have ty: "evType ev = MidiSysEx"
  proof (rule ccontr)
    assume "evType ev \<noteq> MidiSysEx"
    then have "fst (midiEvent process ev st) = NotSysEx" by (simp add: midiEvent_other_type)
    with assms show False by (simp add: passedChecks_def)
  qed
  have fc: "frameChecks (sysExData ev)"
    using passedChecks_iff [OF ty, of process st] assms by simp
  then have len: "13 \<le> length (sysExData ev)" by (simp add: frameChecks_def)
  have dec: "sysExData ev = bulkFrame (payloadOf (sysExData ev))"
    by (rule frameChecks_decompose [OF fc])
  have pl: "length (payloadOf (sysExData ev)) = length (sysExData ev) - 10"
    using len by (simp add: payloadOf_def)
  show ?thesis using len dec pl by (simp add: bulkFrame_def)
qed

theorem accepted_frame_length_witness:
  "passedChecks
     (fst (midiEvent endTransfer (sysExEvent (bulkFrame (replicate 159 0x00))) awaitingWindow))
   \<and> length (sysExData (sysExEvent (bulkFrame (replicate 159 0x00)))) = 169
   \<and> length (payloadOf (sysExData (sysExEvent (bulkFrame (replicate 159 0x00))))) = 159"
proof -
  have p: "passedChecks
     (fst (midiEvent endTransfer (sysExEvent (bulkFrame (replicate 159 0x00))) awaitingWindow))"
    by code_simp
  show ?thesis
    using p accepted_frame_length [OF p]
    by (simp add: sysExEvent_def bulkFrame_def sysExBulkHeader_def)
qed

section \<open>Outbound parameter frames\<close>

text \<open>
  C4. For every offset from 0 below 159, a call of \<open>parameterChanged\<close> that returns
  with an edit widget present has enqueued the frame it built for that offset, and this
  frame carries section byte \<open>0x00\<close> and the offset as address byte when the offset is
  below 32 (\<open>PatchCommonLength\<close>), and section byte \<open>0x01\<close> and the offset minus 32
  as address byte otherwise. Offset 31 gives (0x00, 31), offset 32 gives (0x01, 0) and
  offset 158 gives (0x01, 126).
\<close>

theorem parameterSend_section_address:
  assumes "0 \<le> offset" and "offset < PatchTotalLength"
    and "editWidget st = Some d" and "parameterChanged offset len hf st = Inr st'"
  shows "\<exists>f\<in>set (midiOutQueue st').
           buildParameterSend d offset (if offset = PatchName then 1 else len) = Inr f
           \<and> take 7 f = sysExParameterSendHeader @ [0x20]
           \<and> (offset < PatchCommonLength \<longrightarrow> f ! 7 = 0x00 \<and> uint (f ! 8) = offset)
           \<and> (PatchCommonLength \<le> offset \<longrightarrow>
                f ! 7 = 0x01 \<and> uint (f ! 8) = offset - PatchCommonLength)"
proof -
  let ?len = "if offset = PatchName then 1 else len"
  have "\<exists>f\<in>set (midiOutQueue st'). buildParameterSend d offset ?len = Inr f"
  proof (cases "offset = PatchName")
    case False
    from midiOutQueue_other [OF assms(3) False assms(4)] show ?thesis using False by auto
  next
    case True
    from assms(4) True have pc: "parameterChanged PatchName len hf st = Inr st'" by simp
    from midiOutQueue_name [OF assms(3) pc]
    have len: "PatchNameLast \<le> int (length d)"
      and "singleByteFrame d PatchName \<in> set (midiOutQueue st')"
      by (simp_all add: upto_rec1 [of PatchName] PatchName_def PatchNameLast_def PatchNameLength_def)
    moreover have "buildParameterSend d PatchName 1 = Inr (singleByteFrame d PatchName)"
      using len by (simp add: buildParameterSend_one singleByteFrame_def PatchName_def PatchNameLast_def PatchNameLength_def)
    ultimately show ?thesis using True by auto
  qed
  then obtain f where fin: "f \<in> set (midiOutQueue st')"
    and b: "buildParameterSend d offset ?len = Inr f" by blast
  from buildParameterSend_Inr(1) [OF b] obtain rest where f: "f = parameterSendPrefix offset @ rest"
    by blast
  have u1: "uint (word_of_int offset :: byte) = offset"
    using assms(1,2)
    by (intro uint_byte_of_int)
      (simp_all add: PatchTotalLength_def PatchCommonLength_def PatchEffectLength_def)
  have u2: "uint (word_of_int (offset - PatchCommonLength) :: byte) = offset - PatchCommonLength"
    if "PatchCommonLength \<le> offset"
    using assms(1,2) that
    by (intro uint_byte_of_int)
      (simp_all add: PatchTotalLength_def PatchCommonLength_def PatchEffectLength_def)
  have t7: "take 7 f = sysExParameterSendHeader @ [0x20]"
    unfolding f by (rule prefix_bytes(1))
  have n7: "f ! 7 = (if offset < PatchCommonLength then 0x00 else 0x01)"
    unfolding f by (rule prefix_bytes(2))
  have n8: "f ! 8 = (if offset < PatchCommonLength then word_of_int offset
                     else word_of_int (offset - PatchCommonLength))"
    unfolding f by (rule prefix_bytes(3))
  have lo: "f ! 7 = 0x00 \<and> uint (f ! 8) = offset" if "offset < PatchCommonLength"
    using that n7 n8 u1 by simp
  have hi: "f ! 7 = 0x01 \<and> uint (f ! 8) = offset - PatchCommonLength"
    if "PatchCommonLength \<le> offset"
  proof -
    from that have "\<not> offset < PatchCommonLength" by simp
    then have "f ! 7 = 0x01" and "f ! 8 = word_of_int (offset - PatchCommonLength)"
      using n7 n8 by (simp_all only: if_False)
    then show ?thesis using u2 [OF that] by (simp only:)
  qed
  from fin b t7 lo hi show ?thesis by blast
qed

theorem parameterSend_section_address_witness:
  "(\<exists>f\<in>set (midiOutQueue (projr (parameterChanged 31 2 True editWindow))).
      f ! 7 = 0x00 \<and> uint (f ! 8) = 31)
   \<and> (\<exists>f\<in>set (midiOutQueue (projr (parameterChanged 32 2 True editWindow))).
      f ! 7 = 0x01 \<and> uint (f ! 8) = 0)
   \<and> (\<exists>f\<in>set (midiOutQueue (projr (parameterChanged 158 1 True editWindow))).
      f ! 7 = 0x01 \<and> uint (f ! 8) = 126)"
proof -
  have r1: "parameterChanged 31 2 True editWindow = Inr (projr (parameterChanged 31 2 True editWindow))"
    by (rule sum.collapse(2) [symmetric]) code_simp
  have r2: "parameterChanged 32 2 True editWindow = Inr (projr (parameterChanged 32 2 True editWindow))"
    by (rule sum.collapse(2) [symmetric]) code_simp
  have r3: "parameterChanged 158 1 True editWindow = Inr (projr (parameterChanged 158 1 True editWindow))"
    by (rule sum.collapse(2) [symmetric]) code_simp
  have t: "(0::int) \<le> 31" "(31::int) < PatchTotalLength" "(0::int) \<le> 32" "(32::int) < PatchTotalLength"
    "(0::int) \<le> 158" "(158::int) < PatchTotalLength"
    by (simp_all add: PatchTotalLength_def PatchCommonLength_def PatchEffectLength_def)
  show ?thesis
    using parameterSend_section_address [OF t(1,2) editWindow_widget r1]
      parameterSend_section_address [OF t(3,4) editWindow_widget r2]
      parameterSend_section_address [OF t(5,6) editWindow_widget r3]
    by (simp add: PatchCommonLength_def) blast
qed

text \<open>
  C6. A call with \<open>offset = PatchName\<close> (16) and length 12, on a data array that
  holds the name field, returns and has enqueued exactly twelve frames of one value
  byte each: after the entries of the old queue that are not for the name addresses
  come, in this order, the frames with section \<open>0x00\<close>, address \<open>16 + i\<close> and the
  byte at offset \<open>16 + i\<close>, for \<open>i\<close> from 0 to 11.
\<close>

theorem patchName_twelve_frames:
  assumes "editWidget st = Some d" and "PatchNameLast \<le> int (length d)"
  shows "map_sum id midiOutQueue (parameterChanged PatchName 12 hf st)
           = Inr (filter (\<lambda>e. \<forall>k\<in>set [PatchName..PatchNameLast - 1].
                                 \<not> startsWith e (parameterSendPrefix k)) (midiOutQueue st)
                  @ map (\<lambda>i. sysExParameterSendHeader
                               @ [0x20, 0x00, word_of_int (16 + i), d ! nat (16 + i), 0xF7])
                      [0..11])
         \<and> length (map (\<lambda>i. sysExParameterSendHeader
                               @ [0x20, 0x00, word_of_int (16 + i), d ! nat (16 + i), 0xF7])
                      [0..11]) = 12"
proof -
  obtain st' where r: "parameterChanged PatchName 12 hf st = Inr st'"
    using assms(2) by (simp add: parameterChanged_name_result [OF assms(1)])
  have f: "map (singleByteFrame d) [PatchName..PatchNameLast - 1]
             = map (\<lambda>i. sysExParameterSendHeader
                               @ [0x20, 0x00, word_of_int (16 + i), d ! nat (16 + i), 0xF7]) [0..11]"
    unfolding name_offsets
    by (simp add: singleByteFrame_def parameterSendPrefix_def PatchCommonLength_def upto_rec1)
  have l: "length [0..11::int] = 12" by code_simp
  show ?thesis
    using midiOutQueue_name(2) [OF assms(1) r] f l by (simp add: r)
qed

theorem patchName_twelve_frames_witness:
  "editWidget editWindow = Some (map word_of_nat [0 ..< 159])
   \<and> PatchNameLast \<le> int (length (map word_of_nat [0 ..< 159] :: byte list))
   \<and> map_sum id midiOutQueue (parameterChanged PatchName 12 True editWindow)
       = Inr [[0xF0, 0x43, 0x7D, 0x40, 0x55, 0x42, 0x20, 0x00, 16, 16, 0xF7],
              [0xF0, 0x43, 0x7D, 0x40, 0x55, 0x42, 0x20, 0x00, 17, 17, 0xF7],
              [0xF0, 0x43, 0x7D, 0x40, 0x55, 0x42, 0x20, 0x00, 18, 18, 0xF7],
              [0xF0, 0x43, 0x7D, 0x40, 0x55, 0x42, 0x20, 0x00, 19, 19, 0xF7],
              [0xF0, 0x43, 0x7D, 0x40, 0x55, 0x42, 0x20, 0x00, 20, 20, 0xF7],
              [0xF0, 0x43, 0x7D, 0x40, 0x55, 0x42, 0x20, 0x00, 21, 21, 0xF7],
              [0xF0, 0x43, 0x7D, 0x40, 0x55, 0x42, 0x20, 0x00, 22, 22, 0xF7],
              [0xF0, 0x43, 0x7D, 0x40, 0x55, 0x42, 0x20, 0x00, 23, 23, 0xF7],
              [0xF0, 0x43, 0x7D, 0x40, 0x55, 0x42, 0x20, 0x00, 24, 24, 0xF7],
              [0xF0, 0x43, 0x7D, 0x40, 0x55, 0x42, 0x20, 0x00, 25, 25, 0xF7],
              [0xF0, 0x43, 0x7D, 0x40, 0x55, 0x42, 0x20, 0x00, 26, 26, 0xF7],
              [0xF0, 0x43, 0x7D, 0x40, 0x55, 0x42, 0x20, 0x00, 27, 27, 0xF7]]"
proof -
  have l: "PatchNameLast \<le> int (length (map word_of_nat [0 ..< 159] :: byte list))"
    by (simp add: PatchNameLast_def PatchName_def PatchNameLength_def)
  have q: "midiOutQueue editWindow = []" by (simp add: editWindow_def idleWindow_def)
  have v: "map (\<lambda>i. sysExParameterSendHeader
                  @ [0x20, 0x00, word_of_int (16 + i), (map word_of_nat [0 ..< 159] :: byte list) ! nat (16 + i), 0xF7])
             [0..11]
       = [[0xF0, 0x43, 0x7D, 0x40, 0x55, 0x42, 0x20, 0x00, 16, 16, 0xF7],
              [0xF0, 0x43, 0x7D, 0x40, 0x55, 0x42, 0x20, 0x00, 17, 17, 0xF7],
              [0xF0, 0x43, 0x7D, 0x40, 0x55, 0x42, 0x20, 0x00, 18, 18, 0xF7],
              [0xF0, 0x43, 0x7D, 0x40, 0x55, 0x42, 0x20, 0x00, 19, 19, 0xF7],
              [0xF0, 0x43, 0x7D, 0x40, 0x55, 0x42, 0x20, 0x00, 20, 20, 0xF7],
              [0xF0, 0x43, 0x7D, 0x40, 0x55, 0x42, 0x20, 0x00, 21, 21, 0xF7],
              [0xF0, 0x43, 0x7D, 0x40, 0x55, 0x42, 0x20, 0x00, 22, 22, 0xF7],
              [0xF0, 0x43, 0x7D, 0x40, 0x55, 0x42, 0x20, 0x00, 23, 23, 0xF7],
              [0xF0, 0x43, 0x7D, 0x40, 0x55, 0x42, 0x20, 0x00, 24, 24, 0xF7],
              [0xF0, 0x43, 0x7D, 0x40, 0x55, 0x42, 0x20, 0x00, 25, 25, 0xF7],
              [0xF0, 0x43, 0x7D, 0x40, 0x55, 0x42, 0x20, 0x00, 26, 26, 0xF7],
              [0xF0, 0x43, 0x7D, 0x40, 0x55, 0x42, 0x20, 0x00, 27, 27, 0xF7]]"
    by code_simp
  show ?thesis
    using editWindow_widget l patchName_twelve_frames [OF editWindow_widget l, of True]
    unfolding q v by simp
qed

text \<open>
  C3. The claim fails for the call with \<open>offset = PatchName\<close>. With the frames for
  the offsets 17 and 5 queued in this order, the call for offset 16 leaves the frame
  for 5 first, then its own frame for 16, then new frames for 17 to 27: the entry for
  the edited address 16 is not at the tail, the queued entry for the other address 17
  is gone, and the entries for 17 and 5 have changed their order.
\<close>

theorem name_reorders_queue_counterexample:
  "map_sum id midiOutQueue (parameterChanges [(17, 1), (5, 1)] True editWindow)
     = Inr [[0xF0, 0x43, 0x7D, 0x40, 0x55, 0x42, 0x20, 0x00, 17, 17, 0xF7],
            [0xF0, 0x43, 0x7D, 0x40, 0x55, 0x42, 0x20, 0x00, 5, 5, 0xF7]]
   \<and> map_sum id midiOutQueue (parameterChanges [(17, 1), (5, 1), (16, 12)] True editWindow)
     = Inr [[0xF0, 0x43, 0x7D, 0x40, 0x55, 0x42, 0x20, 0x00, 5, 5, 0xF7],
            [0xF0, 0x43, 0x7D, 0x40, 0x55, 0x42, 0x20, 0x00, 16, 16, 0xF7],
            [0xF0, 0x43, 0x7D, 0x40, 0x55, 0x42, 0x20, 0x00, 17, 17, 0xF7],
            [0xF0, 0x43, 0x7D, 0x40, 0x55, 0x42, 0x20, 0x00, 18, 18, 0xF7],
            [0xF0, 0x43, 0x7D, 0x40, 0x55, 0x42, 0x20, 0x00, 19, 19, 0xF7],
            [0xF0, 0x43, 0x7D, 0x40, 0x55, 0x42, 0x20, 0x00, 20, 20, 0xF7],
            [0xF0, 0x43, 0x7D, 0x40, 0x55, 0x42, 0x20, 0x00, 21, 21, 0xF7],
            [0xF0, 0x43, 0x7D, 0x40, 0x55, 0x42, 0x20, 0x00, 22, 22, 0xF7],
            [0xF0, 0x43, 0x7D, 0x40, 0x55, 0x42, 0x20, 0x00, 23, 23, 0xF7],
            [0xF0, 0x43, 0x7D, 0x40, 0x55, 0x42, 0x20, 0x00, 24, 24, 0xF7],
            [0xF0, 0x43, 0x7D, 0x40, 0x55, 0x42, 0x20, 0x00, 25, 25, 0xF7],
            [0xF0, 0x43, 0x7D, 0x40, 0x55, 0x42, 0x20, 0x00, 26, 26, 0xF7],
            [0xF0, 0x43, 0x7D, 0x40, 0x55, 0x42, 0x20, 0x00, 27, 27, 0xF7]]"
  by code_simp

text \<open>
  C3, amended. Take a call of \<open>parameterChanged\<close> that returns with an edit widget
  present, on a queue with at most one frame for any section and address. Afterwards
  the queue again has at most one frame for any section and address. When
  \<open>offset \<noteq> PatchName\<close>, the queue is the old queue without the entries that start
  with the nine-byte prefix of the new frame, in their old order, followed by the new
  frame: the surviving entry for the edited address is the new frame, at the tail, and
  all entries for other addresses keep their order. When \<open>offset = PatchName\<close>, the
  queue is the old queue without the entries for the twelve name addresses, followed by
  the twelve new frames for the offsets 16 to 27 in this order.
\<close>

theorem parameterChanged_queue:
  assumes "editWidget st = Some d" and "parameterChanged offset len hf st = Inr st'"
    and "atMostOnePerAddress (midiOutQueue st)"
  shows "atMostOnePerAddress (midiOutQueue st')
     \<and> (offset \<noteq> PatchName \<longrightarrow>
          (\<exists>f. buildParameterSend d offset len = Inr f
             \<and> take 9 f = parameterSendPrefix offset
             \<and> midiOutQueue st'
                 = filter (\<lambda>e. \<not> startsWith e (parameterSendPrefix offset)) (midiOutQueue st)
                     @ [f]))
     \<and> (offset = PatchName \<longrightarrow>
          midiOutQueue st'
            = filter (\<lambda>e. \<forall>k\<in>set [PatchName..PatchNameLast - 1].
                              \<not> startsWith e (parameterSendPrefix k)) (midiOutQueue st)
                @ map (singleByteFrame d) [PatchName..PatchNameLast - 1])"
proof -
  have a: "atMostOnePerAddress (midiOutQueue st')"
    by (rule atMostOne_parameterChanged [OF assms(2,3)])
  have b: "\<exists>f. buildParameterSend d offset len = Inr f
             \<and> take 9 f = parameterSendPrefix offset
             \<and> midiOutQueue st'
                 = filter (\<lambda>e. \<not> startsWith e (parameterSendPrefix offset)) (midiOutQueue st)
                     @ [f]" if "offset \<noteq> PatchName"
  proof -
    from midiOutQueue_other [OF assms(1) that assms(2)] obtain f
      where f: "buildParameterSend d offset len = Inr f"
        "midiOutQueue st' = filter (\<lambda>e. \<not> startsWith e (parameterSendPrefix offset)) (midiOutQueue st) @ [f]"
      by blast
    moreover have "take 9 f = parameterSendPrefix offset" using buildParameterSend_Inr(1) [OF f(1)] by simp
    ultimately show ?thesis by blast
  qed
  have c: "midiOutQueue st'
            = filter (\<lambda>e. \<forall>k\<in>set [PatchName..PatchNameLast - 1].
                              \<not> startsWith e (parameterSendPrefix k)) (midiOutQueue st)
                @ map (singleByteFrame d) [PatchName..PatchNameLast - 1]" if "offset = PatchName"
    using midiOutQueue_name(2) [OF assms(1)] assms(2) that by simp
  from a b c show ?thesis by blast
qed

theorem parameterChanged_queue_witness:
  "atMostOnePerAddress (midiOutQueue queuedWindow)
   \<and> atMostOnePerAddress (midiOutQueue (projr (parameterChanged 5 2 True queuedWindow)))
   \<and> midiOutQueue (projr (parameterChanged 5 2 True queuedWindow))
       = [[0xF0, 0x43, 0x7D, 0x40, 0x55, 0x42, 0x20, 0x00, 6, 6, 0xF7],
          [0xF0, 0x43, 0x7D, 0x40, 0x55, 0x42, 0x20, 0x00, 5, 5, 6, 0xF7]]
   \<and> atMostOnePerAddress
        (midiOutQueue (projr (parameterChanged PatchName 12 True queuedWindow)))
   \<and> midiOutQueue (projr (parameterChanged PatchName 12 True queuedWindow))
       = midiOutQueue queuedWindow
           @ map (singleByteFrame (map word_of_nat [0 ..< 159])) [PatchName..PatchNameLast - 1]"
proof -
  have r: "parameterChanged 5 2 True queuedWindow
             = Inr (projr (parameterChanged 5 2 True queuedWindow))"
    by (rule sum.collapse(2) [symmetric]) code_simp
  have rn: "parameterChanged PatchName 12 True queuedWindow
              = Inr (projr (parameterChanged PatchName 12 True queuedWindow))"
    by (rule sum.collapse(2) [symmetric]) code_simp
  have q: "midiOutQueue (projr (parameterChanged 5 2 True queuedWindow))
       = [[0xF0, 0x43, 0x7D, 0x40, 0x55, 0x42, 0x20, 0x00, 6, 6, 0xF7],
          [0xF0, 0x43, 0x7D, 0x40, 0x55, 0x42, 0x20, 0x00, 5, 5, 6, 0xF7]]"
    by code_simp
  have k: "filter (\<lambda>e. \<forall>k\<in>set [PatchName..PatchNameLast - 1].
                          \<not> startsWith e (parameterSendPrefix k)) (midiOutQueue queuedWindow)
             = midiOutQueue queuedWindow"
    unfolding name_offsets by code_simp
  from parameterChanged_queue [OF queuedWindow_widget r queuedWindow_atMostOne]
  have a1: "atMostOnePerAddress (midiOutQueue (projr (parameterChanged 5 2 True queuedWindow)))"
    by blast
  from parameterChanged_queue [OF queuedWindow_widget rn queuedWindow_atMostOne]
  have a2: "atMostOnePerAddress
        (midiOutQueue (projr (parameterChanged PatchName 12 True queuedWindow)))"
    and a3: "midiOutQueue (projr (parameterChanged PatchName 12 True queuedWindow))
       = midiOutQueue queuedWindow
           @ map (singleByteFrame (map word_of_nat [0 ..< 159])) [PatchName..PatchNameLast - 1]"
    unfolding k by blast+
  from queuedWindow_atMostOne a1 q a2 a3 show ?thesis by blast
qed

text \<open>
  C8. The length is forced to 1 only when the offset equals \<open>PatchName\<close>: a call
  with offset 17, inside the name region, and length 3 enqueues a frame with three value
  bytes.
\<close>

theorem name_region_length_counterexample:
  "map_sum id midiOutQueue (parameterChanged 17 3 True editWindow)
     = Inr [[0xF0, 0x43, 0x7D, 0x40, 0x55, 0x42, 0x20, 0x00, 17, 17, 18, 19, 0xF7]]"
  by code_simp

text \<open>
  C8, amended. For every call with \<open>offset = PatchName\<close> (16) that returns, whatever
  the length argument, each of the twelve frames it enqueues (for the offsets 16 to 27)
  is the nine-byte prefix, exactly one value byte and \<open>0xF7\<close>. A call with another
  offset, the rest of the name region included, enqueues one frame whose number of value
  bytes is the length argument (none when it is negative); the calls that
  \<open>parameterChanged\<close> makes itself for the offsets 17 to 27 pass length 1.
\<close>

theorem patchName_single_value_byte:
  assumes "editWidget st = Some d"
  shows "(parameterChanged PatchName len hf st = Inr st' \<longrightarrow>
            midiOutQueue st'
              = filter (\<lambda>e. \<forall>k\<in>set [PatchName..PatchNameLast - 1].
                                \<not> startsWith e (parameterSendPrefix k)) (midiOutQueue st)
                  @ map (\<lambda>k. parameterSendPrefix k @ [d ! nat k] @ [0xF7])
                      [PatchName..PatchNameLast - 1])
     \<and> (offset \<noteq> PatchName \<and> parameterChanged offset len hf st = Inr st'' \<longrightarrow>
          (\<exists>vals. midiOutQueue st''
                    = filter (\<lambda>e. \<not> startsWith e (parameterSendPrefix offset)) (midiOutQueue st)
                        @ [parameterSendPrefix offset @ vals @ [0xF7]]
                  \<and> int (length vals) = max 0 len))"
proof -
  have a: "midiOutQueue st'
              = filter (\<lambda>e. \<forall>k\<in>set [PatchName..PatchNameLast - 1].
                                \<not> startsWith e (parameterSendPrefix k)) (midiOutQueue st)
                  @ map (\<lambda>k. parameterSendPrefix k @ [d ! nat k] @ [0xF7])
                      [PatchName..PatchNameLast - 1]"
    if "parameterChanged PatchName len hf st = Inr st'"
    using midiOutQueue_name(2) [OF assms that] by (simp add: singleByteFrame_def [abs_def])
  have b: "\<exists>vals. midiOutQueue st''
                    = filter (\<lambda>e. \<not> startsWith e (parameterSendPrefix offset)) (midiOutQueue st)
                        @ [parameterSendPrefix offset @ vals @ [0xF7]]
                  \<and> int (length vals) = max 0 len"
    if "offset \<noteq> PatchName" and "parameterChanged offset len hf st = Inr st''"
  proof -
    from midiOutQueue_other [OF assms that] obtain f
      where f: "buildParameterSend d offset len = Inr f"
        and q: "midiOutQueue st'' = filter (\<lambda>e. \<not> startsWith e (parameterSendPrefix offset)) (midiOutQueue st) @ [f]"
      by blast
    let ?vals = "map (\<lambda>k. d ! nat (offset + k)) [0..len - 1]"
    have "f = parameterSendPrefix offset @ ?vals @ [0xF7]" by (rule buildParameterSend_Inr(1) [OF f])
    moreover have "int (length ?vals) = max 0 len" by simp
    ultimately show ?thesis using q by blast
  qed
  from a b show ?thesis by blast
qed

theorem patchName_single_value_byte_witness:
  "editWidget editWindow = Some (map word_of_nat [0 ..< 159])
   \<and> midiOutQueue (projr (parameterChanged PatchName 12 True editWindow))
       = map (\<lambda>k. parameterSendPrefix k @ [(map word_of_nat [0 ..< 159]) ! nat k] @ [0xF7])
           [PatchName..PatchNameLast - 1]
   \<and> (\<exists>vals. midiOutQueue (projr (parameterChanged 17 3 True editWindow))
                 = [parameterSendPrefix 17 @ vals @ [0xF7]] \<and> int (length vals) = 3)"
proof -
  have r1: "parameterChanged PatchName 12 True editWindow
              = Inr (projr (parameterChanged PatchName 12 True editWindow))"
    by (rule sum.collapse(2) [symmetric]) code_simp
  have r2: "parameterChanged 17 3 True editWindow = Inr (projr (parameterChanged 17 3 True editWindow))"
    by (rule sum.collapse(2) [symmetric]) code_simp
  have n: "(17::int) \<noteq> PatchName" by (simp add: PatchName_def)
  have q: "midiOutQueue editWindow = []" by (simp add: editWindow_def idleWindow_def)
  from patchName_single_value_byte [OF editWindow_widget, of 12 True "projr (parameterChanged PatchName 12 True editWindow)" 17 "projr (parameterChanged 17 3 True editWindow)"]
    patchName_single_value_byte [OF editWindow_widget, of 3 True "projr (parameterChanged PatchName 3 True editWindow)" 17 "projr (parameterChanged 17 3 True editWindow)"]
    r1 r2 n q editWindow_widget
  show ?thesis by simp
qed

text \<open>
  C9. Take a call of \<open>parameterChanged\<close> that gets past the check for the edit
  widget and returns. The frame it built is in the queue afterwards, and the queue it
  leaves is the same whatever the focus of the editing widget and the content of
  \<open>tmpArray\<close>: the wire traffic does not depend on them. The patch buffer
  \<open>newPatchDataList\<close> and \<open>tmpArray\<close> are as before the call when the widget has
  focus or \<open>tmpArray\<close> is empty; without focus and with a pending \<open>tmpArray\<close>, a
  call for an offset other than \<open>PatchName\<close> replaces \<open>length\<close> bytes at the
  offset in the patch being edited by \<open>tmpArray\<close> and clears \<open>tmpArray\<close>.
\<close>

theorem tmpArray_applied_without_focus:
  assumes "editWidget st = Some d" and "parameterChanged offset len hf st = Inr st'"
  shows "(\<exists>f\<in>set (midiOutQueue st').
            buildParameterSend d offset (if offset = PatchName then 1 else len) = Inr f)
     \<and> map_sum id midiOutQueue (parameterChanged offset len hf' (st\<lparr>tmpArray := t\<rparr>))
         = Inr (midiOutQueue st')
     \<and> (hf \<or> tmpArray st = [] \<longrightarrow>
          newPatchDataList st' = newPatchDataList st \<and> tmpArray st' = tmpArray st)
     \<and> (\<not> hf \<and> tmpArray st \<noteq> [] \<and> offset \<noteq> PatchName \<longrightarrow>
          newPatchDataList st'
            = (newPatchDataList st)
                (fst (currentPatchEdited st) :=
                   (newPatchDataList st (fst (currentPatchEdited st)))
                     (snd (currentPatchEdited st) :=
                        replace offset len (tmpArray st)
                          (newPatchDataList st (fst (currentPatchEdited st))
                             (snd (currentPatchEdited st)))))
          \<and> tmpArray st' = [])"
proof -
  have e2: "editWidget (st\<lparr>tmpArray := t\<rparr>) = Some d" using assms(1) by simp
  have "map_sum id midiOutQueue (parameterChanged offset len hf' (st\<lparr>tmpArray := t\<rparr>))
          = map_sum id midiOutQueue (parameterChanged offset len hf st)"
    by (simp add: midiOutQueue_result [OF e2] midiOutQueue_result [OF assms(1)])
  then have b: "map_sum id midiOutQueue (parameterChanged offset len hf' (st\<lparr>tmpArray := t\<rparr>))
         = Inr (midiOutQueue st')"
    by (simp add: assms(2))
  from built_frame_enqueued [OF assms] b store_unchanged [OF assms(2)]
    store_written [OF assms(1) _ assms(2)]
  show ?thesis by blast
qed

theorem tmpArray_applied_without_focus_witness:
  "editWidget pendingWindow = Some (map word_of_nat [0 ..< 159])
   \<and> tmpArray pendingWindow = [0x41]
   \<and> midiOutQueue (projr (parameterChanged 5 1 True pendingWindow))
       = [[0xF0, 0x43, 0x7D, 0x40, 0x55, 0x42, 0x20, 0x00, 5, 5, 0xF7]]
   \<and> newPatchDataList (projr (parameterChanged 5 1 True pendingWindow))
       = newPatchDataList pendingWindow
   \<and> tmpArray (projr (parameterChanged 5 1 True pendingWindow)) = [0x41]
   \<and> midiOutQueue (projr (parameterChanged 5 1 False pendingWindow))
       = [[0xF0, 0x43, 0x7D, 0x40, 0x55, 0x42, 0x20, 0x00, 5, 5, 0xF7]]
   \<and> newPatchDataList (projr (parameterChanged 5 1 False pendingWindow)) 0 0
       = replace 5 1 [0x41] (replicate 159 0x00)
   \<and> replace 5 1 [0x41] (replicate 159 0x00) ! 5 = 0x41
   \<and> tmpArray (projr (parameterChanged 5 1 False pendingWindow)) = []"
proof -
  have r1: "parameterChanged 5 1 True pendingWindow
              = Inr (projr (parameterChanged 5 1 True pendingWindow))"
    by (rule sum.collapse(2) [symmetric]) code_simp
  have r2: "parameterChanged 5 1 False pendingWindow
              = Inr (projr (parameterChanged 5 1 False pendingWindow))"
    by (rule sum.collapse(2) [symmetric]) code_simp
  have t: "tmpArray pendingWindow = [0x41]" by (simp add: pendingWindow_def)
  have n: "(5::int) \<noteq> PatchName" by (simp add: PatchName_def)
  have c: "currentPatchEdited pendingWindow = (0, 0)"
    by (simp add: pendingWindow_def editWindow_def idleWindow_def)
  have p: "newPatchDataList pendingWindow 0 0 = replicate 159 0x00"
    by (simp add: pendingWindow_def)
  have q1: "midiOutQueue (projr (parameterChanged 5 1 True pendingWindow))
       = [[0xF0, 0x43, 0x7D, 0x40, 0x55, 0x42, 0x20, 0x00, 5, 5, 0xF7]]" by code_simp
  have q2: "midiOutQueue (projr (parameterChanged 5 1 False pendingWindow))
       = [[0xF0, 0x43, 0x7D, 0x40, 0x55, 0x42, 0x20, 0x00, 5, 5, 0xF7]]" by code_simp
  have v: "replace 5 1 [0x41] (replicate 159 0x00) ! 5 = (0x41 :: byte)" by code_simp
  from tmpArray_applied_without_focus [OF pendingWindow_widget r1, of True "[0x41]"]
  have a: "newPatchDataList (projr (parameterChanged 5 1 True pendingWindow))
             = newPatchDataList pendingWindow"
    "tmpArray (projr (parameterChanged 5 1 True pendingWindow)) = [0x41]"
    using t by simp_all
  from tmpArray_applied_without_focus [OF pendingWindow_widget r2, of False "[0x41]"]
  have b: "newPatchDataList (projr (parameterChanged 5 1 False pendingWindow)) 0 0
             = replace 5 1 [0x41] (replicate 159 0x00)"
    "tmpArray (projr (parameterChanged 5 1 False pendingWindow)) = []"
    using t n c p by simp_all
  from pendingWindow_widget t q1 q2 v a b show ?thesis by blast
qed

text \<open>
  C10. \<open>parameterChanged\<close> is total (its termination is proved with the definition),
  and a budget of two nested activations is enough for every input: the call itself and
  one level of calls made by its loop, so the recursion has depth at most 1. For an
  offset other than \<open>PatchName\<close> a budget of one is enough, since such a call makes no
  call of its own, and the loop calls with the offsets 17 to 27 only, none of them
  \<open>PatchName\<close>. A call that returns has made the queue longer by at most 12 frames.
\<close>

theorem parameterChanged_terminates:
  "parameterChangedDepth 2 offset len hf st = Some (parameterChanged offset len hf st)
   \<and> (offset \<noteq> PatchName \<longrightarrow>
        parameterChangedDepth 1 offset len hf st = Some (parameterChanged offset len hf st))
   \<and> (\<forall>i. PatchName + 1 \<le> i \<and> i < PatchNameLast \<longrightarrow> i \<noteq> PatchName)
   \<and> (\<forall>st'. parameterChanged offset len hf st = Inr st' \<longrightarrow>
        length (midiOutQueue st') \<le> length (midiOutQueue st) + 12)"
proof -
  have a: "parameterChangedDepth 2 offset len hf st = Some (parameterChanged offset len hf st)"
    using parameterChangedDepth_two [of 0] by (simp add: numeral_2_eq_2)
  have b: "parameterChangedDepth 1 offset len hf st = Some (parameterChanged offset len hf st)"
    if "offset \<noteq> PatchName"
    using parameterChangedDepth_other [OF that, of 0] by simp
  have c: "i \<noteq> PatchName" if "PatchName + 1 \<le> i \<and> i < PatchNameLast" for i
    using that by simp
  from a b c queue_length_bound show ?thesis by blast
qed

theorem parameterChanged_terminates_witness:
  "(5::int) \<noteq> PatchName
   \<and> parameterChangedDepth 1 5 1 True editWindow = Some (parameterChanged 5 1 True editWindow)
   \<and> parameterChangedDepth 2 PatchName 12 True editWindow
       = Some (parameterChanged PatchName 12 True editWindow)
   \<and> parameterChangedDepth 1 PatchName 12 True editWindow = None
   \<and> PatchName + 1 \<le> 17 \<and> 17 < PatchNameLast \<and> (17::int) \<noteq> PatchName
   \<and> parameterChanged PatchName 12 True editWindow
       = Inr (projr (parameterChanged PatchName 12 True editWindow))
   \<and> length (midiOutQueue (projr (parameterChanged PatchName 12 True editWindow))) = 12
   \<and> length (midiOutQueue (projr (parameterChanged PatchName 12 True editWindow)))
       \<le> length (midiOutQueue editWindow) + 12"
proof -
  have n: "(5::int) \<noteq> PatchName" by (simp add: PatchName_def)
  have r: "parameterChanged PatchName 12 True editWindow
       = Inr (projr (parameterChanged PatchName 12 True editWindow))"
    by (rule sum.collapse(2) [symmetric]) code_simp
  have o: "parameterChangedDepth 1 PatchName 12 True editWindow = None" by code_simp
  have l: "length (midiOutQueue (projr (parameterChanged PatchName 12 True editWindow))) = 12"
    by code_simp
  have i: "PatchName + 1 \<le> 17 \<and> 17 < PatchNameLast"
    by (simp add: PatchName_def PatchNameLast_def PatchNameLength_def)
  show ?thesis
    using n r o l i parameterChanged_terminates [of 5 1 True editWindow]
      parameterChanged_terminates [of PatchName 12 True editWindow]
    by blast
qed

end
